theory Spec2Isabelle
  imports Complex_Main "HOL-Library.AList"
begin

section \<open>NumPy values\<close>

text \<open>
  The estimator of \<^verbatim>\<open>src/sparselm/model/_base.py\<close> works on NumPy arrays of
  floating-point numbers. An array entry is modelled as an exact real number or one of the
  three IEEE special values; rounding and signed zeros are not modelled. The special
  values are kept because the source can produce them (a division by a zero sum of
  sample weights) and because \<^verbatim>\<open>np.array_equal\<close> never equates a NaN with anything.
\<close>

datatype npfloat = Fin real | PInf | NInf | NaN

fun fadd :: "npfloat \<Rightarrow> npfloat \<Rightarrow> npfloat" where
  "fadd (Fin a) (Fin b) = Fin (a + b)"
| "fadd NaN _ = NaN"
| "fadd _ NaN = NaN"
| "fadd PInf NInf = NaN"
| "fadd NInf PInf = NaN"
| "fadd PInf _ = PInf"
| "fadd _ PInf = PInf"
| "fadd NInf _ = NInf"
| "fadd _ NInf = NInf"

fun fneg :: "npfloat \<Rightarrow> npfloat" where
  "fneg (Fin a) = Fin (- a)"
| "fneg PInf = NInf"
| "fneg NInf = PInf"
| "fneg NaN = NaN"

text \<open>An infinity multiplied by a finite number: the sign decides, zero gives NaN.\<close>

definition inf_times :: "npfloat \<Rightarrow> real \<Rightarrow> npfloat" where
  "inf_times i a = (if a = 0 then NaN else if 0 < a then i else fneg i)"

fun fmul :: "npfloat \<Rightarrow> npfloat \<Rightarrow> npfloat" where
  "fmul (Fin a) (Fin b) = Fin (a * b)"
| "fmul NaN _ = NaN"
| "fmul _ NaN = NaN"
| "fmul (Fin a) PInf = inf_times PInf a"
| "fmul (Fin a) NInf = inf_times NInf a"
| "fmul PInf (Fin b) = inf_times PInf b"
| "fmul NInf (Fin b) = inf_times NInf b"
| "fmul PInf PInf = PInf"
| "fmul NInf NInf = PInf"
| "fmul PInf NInf = NInf"
| "fmul NInf PInf = NInf"

text \<open>
  NumPy's float division does not raise on a zero divisor: it yields an infinity, or NaN
  for \<open>0 / 0\<close> (a zero divisor is read as \<open>+0.0\<close>).
\<close>

fun fdiv :: "npfloat \<Rightarrow> npfloat \<Rightarrow> npfloat" where
  "fdiv (Fin a) (Fin b) =
     (if b = 0 then (if a = 0 then NaN else if 0 < a then PInf else NInf) else Fin (a / b))"
| "fdiv NaN _ = NaN"
| "fdiv _ NaN = NaN"
| "fdiv (Fin a) PInf = Fin 0"
| "fdiv (Fin a) NInf = Fin 0"
| "fdiv PInf (Fin b) = (if 0 \<le> b then PInf else NInf)"
| "fdiv NInf (Fin b) = (if 0 \<le> b then NInf else PInf)"
| "fdiv PInf PInf = NaN"
| "fdiv PInf NInf = NaN"
| "fdiv NInf PInf = NaN"
| "fdiv NInf NInf = NaN"

text \<open>The comparison \<^verbatim>\<open>==\<close> on floats: NaN differs from everything, itself included.\<close>

fun feq :: "npfloat \<Rightarrow> npfloat \<Rightarrow> bool" where
  "feq (Fin a) (Fin b) = (a = b)"
| "feq PInf PInf = True"
| "feq NInf NInf = True"
| "feq _ _ = False"


text \<open>
  An array is its shape and its entries in row-major order, as NumPy stores it. Arrays
  are values here: the model does not follow two names aliasing one buffer.
\<close>

datatype ndarray = NDArray (shape: "nat list") (entries: "npfloat list")

text \<open>\<^verbatim>\<open>np.array_equal(a1, a2)\<close>: same shape and every pair of entries \<^verbatim>\<open>==\<close>.\<close>

definition array_equal :: "ndarray \<Rightarrow> ndarray \<Rightarrow> bool" where
  "array_equal a1 a2 =
     (if shape a1 \<noteq> shape a2 then False
      else length (entries a1) = length (entries a2) \<and>
           list_all (\<lambda>(p, q). feq p q) (zip (entries a1) (entries a2)))"

text \<open>\<^verbatim>\<open>np.sum\<close> of an array and the product of an array with a scalar.\<close>

definition np_sum :: "ndarray \<Rightarrow> npfloat" where
  "np_sum a = foldl fadd (Fin 0) (entries a)"

definition np_scale :: "ndarray \<Rightarrow> npfloat \<Rightarrow> ndarray" where
  "np_scale a c = NDArray (shape a) (map (\<lambda>p. fmul p c) (entries a))"

text \<open>\<^verbatim>\<open>np.eye(k)\<close>: the \<open>k\<close> by \<open>k\<close> identity matrix.\<close>

definition np_eye :: "nat \<Rightarrow> ndarray" where
  "np_eye k =
     NDArray [k, k]
       (concat (map (\<lambda>i. map (\<lambda>j. if i = j then Fin 1 else Fin 0) [0..<k]) [0..<k]))"

section \<open>Errors\<close>

text \<open>
  Every exception the source raises, or lets a collaborator raise, is a value. The
  collaborators outside this file (scikit-learn's validation and preprocessing, cvxpy's
  constructors and its solver) report their own failures through the same type.
\<close>

datatype error =
    TypeError string
  | AttributeError string
  | IndexError string
  | ValueError string
  | InvalidParameterError string
  | SolverError string

text \<open>\<^verbatim>\<open>a.shape[i]\<close>: indexing the shape tuple raises out of range.\<close>

definition shape_at :: "ndarray \<Rightarrow> nat \<Rightarrow> error + nat" where
  "shape_at a i =
     (if i < length (shape a) then Inr (shape a ! i)
      else Inl (IndexError ''tuple index out of range''))"

section \<open>Sample weights\<close>

text \<open>
  Line 156 of \<^verbatim>\<open>fit\<close>:
  \<^verbatim>\<open>sample_weight = sample_weight * (X.shape[0] / np.sum(sample_weight))\<close>.
\<close>

definition rescale_sample_weight :: "ndarray \<Rightarrow> ndarray \<Rightarrow> error + ndarray" where
  "rescale_sample_weight X sample_weight =
     (case shape_at X 0 of
        Inl e \<Rightarrow> Inl e
      | Inr n \<Rightarrow> Inr (np_scale sample_weight (fdiv (Fin (real n)) (np_sum sample_weight))))"

section \<open>Python values and declared constraints\<close>

text \<open>
  The value of a hyperparameter. \<open>VSeq\<close> is a list or tuple of numbers, \<open>VArray\<close> a
  numeric NumPy array, \<open>VScalarArray v\<close> the zero-dimensional array that
  \<^verbatim>\<open>np.asarray\<close> makes of a non-numeric object \<open>v\<close>, \<open>VObject\<close> any other object.
\<close>

datatype pyval =
    VNone
  | VBool bool
  | VInt int
  | VFloat npfloat
  | VStr string
  | VSeq "npfloat list"
  | VArray ndarray
  | VScalarArray pyval
  | VDict "(string \<times> pyval) list"
  | VObject string

fun has_shape :: "pyval \<Rightarrow> bool" where
  "has_shape (VArray a) = True"
| "has_shape (VScalarArray v) = True"
| "has_shape _ = False"

fun np_asarray :: "pyval \<Rightarrow> pyval" where
  "np_asarray (VArray a) = VArray a"
| "np_asarray (VScalarArray v) = VScalarArray v"
| "np_asarray (VSeq xs) = VArray (NDArray [length xs] xs)"
| "np_asarray (VFloat x) = VArray (NDArray [] [x])"
| "np_asarray (VInt i) = VArray (NDArray [] [Fin (real_of_int i)])"
| "np_asarray (VBool b) = VArray (NDArray [] [Fin (if b then 1 else 0)])"
| "np_asarray v = VScalarArray v"

text \<open>\<^verbatim>\<open>v.shape\<close> of a value that has the attribute (callers test \<open>has_shape\<close> first).\<close>

fun shape_of :: "pyval \<Rightarrow> nat list" where
  "shape_of (VArray a) = shape a"
| "shape_of _ = []"

text \<open>\<^verbatim>\<open>isinstance(value, np.ndarray | Sequence)\<close> and \<^verbatim>\<open>len(value)\<close>.\<close>

fun is_array_or_sequence :: "pyval \<Rightarrow> bool" where
  "is_array_or_sequence (VSeq xs) = True"
| "is_array_or_sequence (VStr s) = True"
| "is_array_or_sequence (VArray a) = True"
| "is_array_or_sequence (VScalarArray v) = True"
| "is_array_or_sequence _ = False"

fun py_len :: "pyval \<Rightarrow> error + nat" where
  "py_len (VSeq xs) = Inr (length xs)"
| "py_len (VStr s) = Inr (length s)"
| "py_len (VArray a) =
     (case shape a of [] \<Rightarrow> Inl (TypeError ''len() of unsized object'') | n # _ \<Rightarrow> Inr n)"
| "py_len (VScalarArray v) = Inl (TypeError ''len() of unsized object'')"
| "py_len _ = Inl (TypeError ''object has no len()'')"

text \<open>
  The constraint objects of scikit-learn's parameter validation, as
  \<^verbatim>\<open>make_constraint\<close> returns them: \<^verbatim>\<open>"array-like"\<close> is \<open>ArrayLikes\<close>,
  \<^verbatim>\<open>"boolean"\<close> is \<open>Booleans\<close>, a type is \<open>InstancesOf\<close>, \<^verbatim>\<open>None\<close> is
  \<open>NoneConstraint\<close>, an \<^verbatim>\<open>Interval\<close> or \<^verbatim>\<open>Options\<close> object is itself.
\<close>

datatype pytype = TyObject | TyBool | TyInt | TyIntegral | TyReal | TyFloat | TyStr | TyDict

datatype interval_type = IntegralT | RealT | RealNotIntT

datatype closed = ClosedLeft | ClosedRight | ClosedBoth | ClosedNeither

datatype constraint =
    ArrayLikes
  | Booleans
  | InstancesOf pytype
  | Interval interval_type "real option" "real option" closed
  | Options "string list"
  | NoneConstraint

text \<open>
  \<^verbatim>\<open>constraint.is_satisfied_by(True)\<close> and \<^verbatim>\<open>constraint.is_satisfied_by(5)\<close> of an
  \<open>InstancesOf\<close> constraint are \<^verbatim>\<open>isinstance\<close> tests; \<^verbatim>\<open>bool\<close> is a subclass of
  \<^verbatim>\<open>int\<close>.
\<close>

fun isinstance_True :: "pytype \<Rightarrow> bool" where
  "isinstance_True TyObject = True"
| "isinstance_True TyBool = True"
| "isinstance_True TyInt = True"
| "isinstance_True TyIntegral = True"
| "isinstance_True TyReal = True"
| "isinstance_True _ = False"

fun isinstance_5 :: "pytype \<Rightarrow> bool" where
  "isinstance_5 TyObject = True"
| "isinstance_5 TyInt = True"
| "isinstance_5 TyIntegral = True"
| "isinstance_5 TyReal = True"
| "isinstance_5 _ = False"

section \<open>The keyword arguments of a cvxpy Parameter\<close>

text \<open>
  \<^verbatim>\<open>param_kwargs\<close> of \<^verbatim>\<open>_generate_params\<close>: a dictionary whose keys are among
  \<^verbatim>\<open>shape, boolean, integer, nonneg, pos, nonpos, neg\<close>. Every flag the source stores is
  \<^verbatim>\<open>True\<close>, so a flag is \<open>True\<close> here exactly when its key is in the dictionary.
\<close>

record param_kwargs =
  kw_shape :: "nat list option"
  kw_boolean :: bool
  kw_integer :: bool
  kw_nonneg :: bool
  kw_pos :: bool
  kw_nonpos :: bool
  kw_neg :: bool

definition no_kwargs :: param_kwargs where
  "no_kwargs =
     \<lparr>kw_shape = None, kw_boolean = False, kw_integer = False, kw_nonneg = False,
      kw_pos = False, kw_nonpos = False, kw_neg = False\<rparr>"

text \<open>Lines 280 to 298: the hints read off an \<^verbatim>\<open>Interval\<close> constraint.\<close>

definition interval_kwargs ::
  "interval_type \<Rightarrow> real option \<Rightarrow> real option \<Rightarrow> closed \<Rightarrow> param_kwargs \<Rightarrow> param_kwargs" where
  "interval_kwargs ty left right cl k =
     (let k1 = (if ty = IntegralT then k\<lparr>kw_integer := True\<rparr> else k);
          k2 = (case left of
                  None \<Rightarrow> k1
                | Some l \<Rightarrow>
                    if l = 0 then
                      (if cl = ClosedLeft \<or> cl = ClosedBoth then k1\<lparr>kw_nonneg := True\<rparr>
                       else k1\<lparr>kw_pos := True\<rparr>)
                    else if 0 < l then k1\<lparr>kw_pos := True\<rparr>
                    else k1)
      in (case right of
            None \<Rightarrow> k2
          | Some r \<Rightarrow>
              if r = 0 then
                (if cl = ClosedRight \<or> cl = ClosedBoth then k2\<lparr>kw_nonpos := True\<rparr>
                 else k2\<lparr>kw_neg := True\<rparr>)
              else if r < 0 then k2\<lparr>kw_neg := True\<rparr>
              else k2))"

text \<open>
  Lines 265 to 298: one pass of the loop body over a constraint, up to the construction of
  the Parameter. The four \<^verbatim>\<open>isinstance\<close> tests are on disjoint classes. The pass may
  rebind \<^verbatim>\<open>param_val\<close> (to \<^verbatim>\<open>np.asarray(param_val)\<close>), so it returns the value too.
\<close>

fun constraint_kwargs :: "constraint \<Rightarrow> pyval \<times> param_kwargs \<Rightarrow> pyval \<times> param_kwargs" where
  "constraint_kwargs ArrayLikes (v, k) =
     (let v' = (if \<not> has_shape v then np_asarray v else v)
      in (v', k\<lparr>kw_shape := Some (shape_of v')\<rparr>))"
| "constraint_kwargs Booleans (v, k) = (v, k\<lparr>kw_boolean := True\<rparr>)"
| "constraint_kwargs (InstancesOf t) (v, k) =
     (if isinstance_True t then (v, k\<lparr>kw_boolean := True\<rparr>)
      else if isinstance_5 t then (v, k\<lparr>kw_integer := True\<rparr>)
      else (v, k))"
| "constraint_kwargs (Interval ty left right cl) (v, k) = (v, interval_kwargs ty left right cl k)"
| "constraint_kwargs _ (v, k) = (v, k)"

text \<open>The value and the keyword arguments after all constraints of the list.\<close>

definition final_kwargs :: "constraint list \<Rightarrow> pyval \<Rightarrow> pyval \<times> param_kwargs" where
  "final_kwargs cs v = foldl (\<lambda>vk c. constraint_kwargs c vk) (v, no_kwargs) cs"

section \<open>cvxpy objects and the estimator's state\<close>

text \<open>
  cvxpy objects have identity: a Variable, a Parameter and the \<^verbatim>\<open>CVXCanonicals\<close> tuple
  live in a store and are named by their addresses. An expression is a term over them;
  \<open>Atom\<close> stands for any cvxpy atom the estimators of other files build.
\<close>

type_synonym addr = nat

datatype expr =
    Const npfloat
  | ConstArray ndarray
  | VarRef addr
  | ParamRef addr
  | Add expr expr
  | Mul expr expr
  | MatMul expr expr
  | SumSquares expr
  | Atom string "expr list"

text \<open>\<^verbatim>\<open>cp.Problem(cp.Minimize(objective), constraints)\<close>.\<close>

datatype cp_problem = Problem (minimize: expr) (subject_to: "expr list option")

text \<open>A \<^verbatim>\<open>SimpleNamespace\<close> is a dictionary of attributes.\<close>

type_synonym 'a namespace = "(string \<times> 'a) list"

record CVXCanonicals =
  problem :: cp_problem
  objective :: expr
  beta :: addr
  parameters :: "addr namespace option"
  auxiliaries :: "expr namespace option"
  constraints :: "expr list option"

datatype obj =
    ParameterObj (pvalue: pyval) (attrs: param_kwargs)
  | VariableObj nat
  | CanonicalsObj CVXCanonicals

text \<open>
  What the model records of the calls made, in the order they are made: the objects
  built by \<^verbatim>\<open>generate_problem\<close> and the invocations of the solver, each with the
  data it was given.
\<close>

datatype event =
    NewVariable addr nat
  | GenerateParams
  | GenerateAuxiliaries
  | GenerateObjective
  | GenerateConstraints
  | NewProblem addr ndarray ndarray
  | SetParamValues
  | Solve addr ndarray ndarray

text \<open>
  The estimator and the store. The first five fields are the constructor arguments of
  \<^verbatim>\<open>CVXEstimator\<close>; \<open>hyperparams\<close> are the further constructor arguments of a
  subclass; \<open>cvx_parameter_constraints\<close> is the class attribute
  \<^verbatim>\<open>_cvx_parameter_constraints\<close>; \<open>tikhonov_w\<close> is \<open>None\<close> when the attribute does
  not exist and \<open>Some None\<close> when it is \<^verbatim>\<open>None\<close>. The fitted attributes
  \<^verbatim>\<open>canonicals_\<close>, \<^verbatim>\<open>cached_X_\<close>, \<^verbatim>\<open>cached_y_\<close>, \<^verbatim>\<open>coef_\<close> and
  \<^verbatim>\<open>intercept_\<close> are written without the trailing underscore; \<open>None\<close> is
  \<^verbatim>\<open>not hasattr\<close>. \<^verbatim>\<open>warm_start\<close>, \<^verbatim>\<open>fit_intercept\<close> and \<^verbatim>\<open>copy_X\<close>
  are Python booleans.
\<close>

record estimator =
  fit_intercept :: bool
  copy_X :: bool
  warm_start :: bool
  solver :: "string option"
  solver_options :: pyval
  hyperparams :: "(string \<times> pyval) list"
  cvx_parameter_constraints :: "(string \<times> constraint list) list option"
  tikhonov_w :: "ndarray option option"
  canonicals :: "addr option"
  cached_X :: "ndarray option"
  cached_y :: "ndarray option"
  coef :: "pyval option"
  intercept :: "pyval option"
  heap :: "addr \<Rightarrow> obj option"
  next_addr :: addr
  trace :: "event list"

definition alloc :: "obj \<Rightarrow> estimator \<Rightarrow> addr \<times> estimator" where
  "alloc ob s =
     (next_addr s, s\<lparr>heap := (heap s)(next_addr s \<mapsto> ob), next_addr := Suc (next_addr s)\<rparr>)"

definition emit :: "event \<Rightarrow> estimator \<Rightarrow> estimator" where
  "emit ev s = s\<lparr>trace := trace s @ [ev]\<rparr>"

text \<open>
  \<^verbatim>\<open>self.get_params(deep=False)\<close>: the constructor arguments with their current
  values. (scikit-learn lists them sorted by name; the place of a subclass's arguments
  among the five only decides the numbering of fresh objects and which of several
  errors is reported first.)
\<close>

definition get_params :: "estimator \<Rightarrow> (string \<times> pyval) list" where
  "get_params s =
     [(''copy_X'', VBool (copy_X s)),
      (''fit_intercept'', VBool (fit_intercept s)),
      (''solver'', (case solver s of None \<Rightarrow> VNone | Some n \<Rightarrow> VStr n)),
      (''solver_options'', solver_options s),
      (''warm_start'', VBool (warm_start s))] @ hyperparams s"

text \<open>
  The collaborators the source calls and this repository does not define: scikit-learn's
  \<^verbatim>\<open>_validate_data\<close>, \<^verbatim>\<open>_check_sample_weight\<close>, \<^verbatim>\<open>_preprocess_data\<close> (given
  \<open>X\<close>, \<open>y\<close>, \<open>copy\<close>, \<open>fit_intercept\<close>, \<open>sample_weight\<close>; returning \<open>X\<close>, \<open>y\<close>,
  \<open>X_offset\<close>, \<open>y_offset\<close>, \<open>X_scale\<close>), \<^verbatim>\<open>_rescale_data\<close>,
  \<^verbatim>\<open>validate_parameter_constraints\<close> and \<^verbatim>\<open>LinearModel._set_intercept\<close> (given
  \<open>fit_intercept\<close>, \<open>coef_\<close> and the three offsets; returning \<open>coef_\<close> and
  \<open>intercept_\<close>); \<^verbatim>\<open>cp.installed_solvers()\<close>; the checks cvxpy makes when a
  Variable or a Parameter is constructed, when a Parameter's value is set and when a
  Problem is constructed;
  NumPy's broadcasting product \<^verbatim>\<open>value * np.ones_like(old)\<close>; cvxpy's
  \<^verbatim>\<open>problem.solve\<close> followed by \<^verbatim>\<open>beta.value\<close>; and the three hooks a subclass
  defines, which receive the estimator, \<open>X\<close>, \<open>y\<close>, \<open>beta\<close>, the parameters and (but
  for the auxiliaries hook) the auxiliaries. Each is a parameter of the model; one that
  can raise returns an error.
\<close>

record env =
  validate_data :: "ndarray \<Rightarrow> ndarray \<Rightarrow> error + ndarray \<times> ndarray"
  check_sample_weight :: "ndarray \<Rightarrow> ndarray \<Rightarrow> error + ndarray"
  preprocess_data ::
    "ndarray \<Rightarrow> ndarray \<Rightarrow> bool \<Rightarrow> bool \<Rightarrow> ndarray option
      \<Rightarrow> error + ndarray \<times> ndarray \<times> ndarray \<times> ndarray \<times> ndarray"
  rescale_data :: "ndarray \<Rightarrow> ndarray \<Rightarrow> ndarray \<Rightarrow> error + ndarray \<times> ndarray"
  validate_parameter_constraints ::
    "(string \<times> constraint list) list \<Rightarrow> (string \<times> pyval) list \<Rightarrow> error option"
  set_intercept ::
    "bool \<Rightarrow> pyval \<Rightarrow> ndarray \<Rightarrow> ndarray \<Rightarrow> ndarray \<Rightarrow> error + pyval \<times> pyval"
  installed_solvers :: "string list"
  cp_Variable_init :: "nat \<Rightarrow> error option"
  cp_Parameter_init :: "pyval \<Rightarrow> param_kwargs \<Rightarrow> error option"
  cp_Parameter_set :: "param_kwargs \<Rightarrow> pyval \<Rightarrow> error option"
  cp_Problem_init :: "expr \<Rightarrow> expr list option \<Rightarrow> error option"
  mul_ones_like :: "pyval \<Rightarrow> pyval \<Rightarrow> error + pyval"
  cp_solve ::
    "(addr \<Rightarrow> obj option) \<Rightarrow> cp_problem \<Rightarrow> addr \<Rightarrow> string option \<Rightarrow> bool
      \<Rightarrow> (string \<times> pyval) list \<Rightarrow> error + pyval"
  generate_auxiliaries ::
    "estimator \<Rightarrow> ndarray \<Rightarrow> ndarray \<Rightarrow> addr \<Rightarrow> addr namespace option
      \<Rightarrow> error + expr namespace option"
  generate_objective ::
    "estimator \<Rightarrow> ndarray \<Rightarrow> ndarray \<Rightarrow> addr \<Rightarrow> addr namespace option
      \<Rightarrow> expr namespace option \<Rightarrow> error + expr"
  generate_constraints ::
    "estimator \<Rightarrow> ndarray \<Rightarrow> ndarray \<Rightarrow> addr \<Rightarrow> addr namespace option
      \<Rightarrow> expr namespace option \<Rightarrow> error + expr list option"

section \<open>Hyperparameter validation\<close>

text \<open>
  The class attribute \<^verbatim>\<open>_parameter_constraints\<close> (lines 79 to 85), the dictionary
  union \<^verbatim>\<open>d1 | d2\<close>, and \<^verbatim>\<open>_validate_params\<close> (lines 199 to 215).
\<close>

definition parameter_constraints :: "env \<Rightarrow> (string \<times> constraint list) list" where
  "parameter_constraints env =
     [(''fit_intercept'', [Booleans]),
      (''copy_X'', [Booleans]),
      (''warm_start'', [Booleans]),
      (''solver'', [Options (installed_solvers env), NoneConstraint]),
      (''solver_options'', [InstancesOf TyDict, NoneConstraint])]"

definition dict_union :: "('k \<times> 'v) list \<Rightarrow> ('k \<times> 'v) list \<Rightarrow> ('k \<times> 'v) list" where
  "dict_union d1 d2 = foldl (\<lambda>d (k, v). AList.update k v d) d1 d2"

definition validate_params :: "env \<Rightarrow> estimator \<Rightarrow> ndarray \<Rightarrow> ndarray \<Rightarrow> error option" where
  "validate_params env s X y =
     validate_parameter_constraints env
       (case cvx_parameter_constraints s of
          None \<Rightarrow> parameter_constraints env
        | Some cc \<Rightarrow> dict_union (parameter_constraints env) cc)
       (get_params s)"

section \<open>The Parameter Translator\<close>

text \<open>
  \<^verbatim>\<open>_generate_params\<close> (lines 230 to 303). The inner loop (lines 264 to 301) constructs
  a Parameter at the end of every pass and stores it under the hyperparameter's name, so
  the Parameter that stays is the one of the last pass, and a hyperparameter with an
  empty list of constraints gets none.
\<close>

fun constraints_loop ::
  "env \<Rightarrow> string \<Rightarrow> constraint list \<Rightarrow> pyval \<times> param_kwargs \<Rightarrow> addr namespace \<Rightarrow> estimator
    \<Rightarrow> (error + addr namespace) \<times> estimator" where
  "constraints_loop env param_name [] vk cvx_parameters s = (Inr cvx_parameters, s)"
| "constraints_loop env param_name (c # cs) vk cvx_parameters s =
     (case constraint_kwargs c vk of
        (param_val, kwargs) \<Rightarrow>
          (case cp_Parameter_init env param_val kwargs of
             Some e \<Rightarrow> (Inl e, s)
           | None \<Rightarrow>
               (case alloc (ParameterObj param_val kwargs) s of
                  (a, s') \<Rightarrow>
                    constraints_loop env param_name cs (param_val, kwargs)
                      (AList.update param_name a cvx_parameters) s')))"

fun params_loop ::
  "env \<Rightarrow> (string \<times> constraint list) list \<Rightarrow> (string \<times> pyval) list \<Rightarrow> addr namespace
    \<Rightarrow> estimator \<Rightarrow> (error + addr namespace) \<times> estimator" where
  "params_loop env cvx_constraints [] cvx_parameters s = (Inr cvx_parameters, s)"
| "params_loop env cvx_constraints ((param_name, param_val) # rest) cvx_parameters s =
     (case map_of cvx_constraints param_name of
        None \<Rightarrow> params_loop env cvx_constraints rest cvx_parameters s
      | Some cs \<Rightarrow>
          (case constraints_loop env param_name cs (param_val, no_kwargs) cvx_parameters s of
             (Inl e, s') \<Rightarrow> (Inl e, s')
           | (Inr cvx_parameters', s') \<Rightarrow>
               params_loop env cvx_constraints rest cvx_parameters' s'))"

definition generate_params ::
  "env \<Rightarrow> ndarray \<Rightarrow> ndarray \<Rightarrow> estimator \<Rightarrow> (error + addr namespace) \<times> estimator" where
  "generate_params env X y s =
     params_loop env
       (case cvx_parameter_constraints s of None \<Rightarrow> [] | Some cc \<Rightarrow> cc)
       (get_params s) [] s"

text \<open>
  \<^verbatim>\<open>_set_param_values\<close> (lines 217 to 228).
  \<^verbatim>\<open>getattr(self.canonicals_.parameters, parameter)\<close> fails when an attribute on the
  way does not exist; the membership test \<^verbatim>\<open>parameter in None\<close> raises a TypeError.
\<close>

definition lookup_parameter :: "estimator \<Rightarrow> string \<Rightarrow> error + addr" where
  "lookup_parameter s name =
     (case canonicals s of
        None \<Rightarrow> Inl (AttributeError ''canonicals_'')
      | Some c \<Rightarrow>
          (case heap s c of
             Some (CanonicalsObj cv) \<Rightarrow>
               (case parameters cv of
                  None \<Rightarrow> Inl (AttributeError name)
                | Some ns \<Rightarrow>
                    (case map_of ns name of
                       None \<Rightarrow> Inl (AttributeError name)
                     | Some a \<Rightarrow> Inr a))
           | _ \<Rightarrow> Inl (AttributeError ''parameters'')))"

definition coerce_value :: "env \<Rightarrow> pyval \<Rightarrow> pyval \<Rightarrow> error + pyval" where
  "coerce_value env v old =
     (if is_array_or_sequence v then
        (case py_len v of
           Inl e \<Rightarrow> Inl e
         | Inr n \<Rightarrow> if n = 1 then mul_ones_like env v old else Inr (np_asarray v))
      else Inr v)"

fun set_param_values_loop ::
  "env \<Rightarrow> (string \<times> pyval) list \<Rightarrow> estimator \<Rightarrow> (error + unit) \<times> estimator" where
  "set_param_values_loop env [] s = (Inr (), s)"
| "set_param_values_loop env ((parameter, v) # rest) s =
     (case cvx_parameter_constraints s of
        None \<Rightarrow> (Inl (TypeError ''argument of type NoneType is not iterable''), s)
      | Some cc \<Rightarrow>
          (case map_of cc parameter of
             None \<Rightarrow> set_param_values_loop env rest s
           | Some cs \<Rightarrow>
               (case lookup_parameter s parameter of
                  Inl e \<Rightarrow> (Inl e, s)
                | Inr a \<Rightarrow>
                    (case heap s a of
                       Some (ParameterObj old kwargs) \<Rightarrow>
                         (case coerce_value env v old of
                            Inl e \<Rightarrow> (Inl e, s)
                          | Inr v' \<Rightarrow>
                              (case cp_Parameter_set env kwargs v' of
                                 Some e \<Rightarrow> (Inl e, s)
                               | None \<Rightarrow>
                                   set_param_values_loop env rest
                                     (s\<lparr>heap := (heap s)(a \<mapsto> ParameterObj v' kwargs)\<rparr>)))
                     | _ \<Rightarrow> (Inl (AttributeError ''value''), s)))))"

definition set_param_values :: "env \<Rightarrow> estimator \<Rightarrow> (error + unit) \<times> estimator" where
  "set_param_values env s = set_param_values_loop env (get_params s) (emit SetParamValues s)"

section \<open>The Builder hooks and the Tikhonov mixin\<close>

text \<open>
  The defaults of \<^verbatim>\<open>_generate_auxiliaries\<close> (lines 305 to 323) and
  \<^verbatim>\<open>_generate_constraints\<close> (lines 355 to 380) return \<^verbatim>\<open>None\<close>.
\<close>

definition default_generate_auxiliaries ::
  "estimator \<Rightarrow> ndarray \<Rightarrow> ndarray \<Rightarrow> addr \<Rightarrow> addr namespace option
    \<Rightarrow> error + expr namespace option" where
  "default_generate_auxiliaries s X y b ps = Inr None"

definition default_generate_constraints ::
  "estimator \<Rightarrow> ndarray \<Rightarrow> ndarray \<Rightarrow> addr \<Rightarrow> addr namespace option
    \<Rightarrow> expr namespace option \<Rightarrow> error + expr list option" where
  "default_generate_constraints s X y b ps aux = Inr None"

text \<open>
  cvxpy accepts \<^verbatim>\<open>W @ beta\<close> for a variable of length \<open>k\<close> when \<open>W\<close> is a matrix with
  \<open>k\<close> columns or a vector of length \<open>k\<close>.
\<close>

definition matmul_ok :: "nat list \<Rightarrow> nat \<Rightarrow> bool" where
  "matmul_ok sh k = (case sh of [k'] \<Rightarrow> k' = k | [m, k'] \<Rightarrow> k' = k | _ \<Rightarrow> False)"

text \<open>
  \<^verbatim>\<open>TikhonovMixin._generate_objective\<close> (lines 430 to 448). \<open>super\<close> is the next
  implementation in the method resolution order. The right-hand side of \<^verbatim>\<open>+=\<close> is
  evaluated left to right: \<^verbatim>\<open>parameters.eta\<close> first, then the product
  \<^verbatim>\<open>tikhonov_w @ beta\<close>.
\<close>

definition Tikhonov_generate_objective ::
  "(estimator \<Rightarrow> ndarray \<Rightarrow> ndarray \<Rightarrow> addr \<Rightarrow> addr namespace option \<Rightarrow> expr namespace option
     \<Rightarrow> error + expr)
    \<Rightarrow> estimator \<Rightarrow> ndarray \<Rightarrow> ndarray \<Rightarrow> addr \<Rightarrow> addr namespace option
    \<Rightarrow> expr namespace option \<Rightarrow> error + expr" where
  "Tikhonov_generate_objective super s X y b ps aux =
     (case (case tikhonov_w s of
              Some (Some W) \<Rightarrow> Inr W
            | _ \<Rightarrow> (case shape_at X 1 of Inl e \<Rightarrow> Inl e | Inr k \<Rightarrow> Inr (np_eye k))) of
        Inl e \<Rightarrow> Inl e
      | Inr W \<Rightarrow>
          (case shape_at X 0 of
             Inl e \<Rightarrow> Inl e
           | Inr n \<Rightarrow>
               (case super s X y b ps aux of
                  Inl e \<Rightarrow> Inl e
                | Inr base \<Rightarrow>
                    (case (case ps of None \<Rightarrow> None | Some ns \<Rightarrow> map_of ns ''eta'') of
                       None \<Rightarrow> Inl (AttributeError ''eta'')
                     | Some eta \<Rightarrow>
                         (case heap s b of
                            Some (VariableObj k) \<Rightarrow>
                              if matmul_ok (shape W) k then
                                Inr (Add base
                                      (Mul (Mul (Const (Fin (real (2 * n)))) (ParamRef eta))
                                        (SumSquares (MatMul (ConstArray W) (VarRef b)))))
                              else Inl (ValueError ''Incompatible dimensions'')
                          | _ \<Rightarrow> Inl (TypeError ''unsupported operand for @''))))))"

section \<open>The Problem Assembler\<close>

text \<open>\<^verbatim>\<open>generate_problem\<close> (lines 382 to 410).\<close>

definition generate_problem ::
  "env \<Rightarrow> ndarray \<Rightarrow> ndarray \<Rightarrow> estimator \<Rightarrow> (error + unit) \<times> estimator" where
  "generate_problem env X y s =
     (case shape_at X 1 of
        Inl e \<Rightarrow> (Inl e, s)
      | Inr k \<Rightarrow>
          (case cp_Variable_init env k of
             Some e \<Rightarrow> (Inl e, s)
           | None \<Rightarrow>
          (case alloc (VariableObj k) s of
             (b, s0) \<Rightarrow>
               (case generate_params env X y (emit GenerateParams (emit (NewVariable b k) s0)) of
                  (Inl e, s1) \<Rightarrow> (Inl e, s1)
                | (Inr ns, s1) \<Rightarrow>
                    (let s2 = emit GenerateAuxiliaries s1 in
                     case generate_auxiliaries env s2 X y b (Some ns) of
                       Inl e \<Rightarrow> (Inl e, s2)
                     | Inr aux \<Rightarrow>
                         (let s3 = emit GenerateObjective s2 in
                          case generate_objective env s3 X y b (Some ns) aux of
                            Inl e \<Rightarrow> (Inl e, s3)
                          | Inr ob \<Rightarrow>
                              (let s4 = emit GenerateConstraints s3 in
                               case generate_constraints env s4 X y b (Some ns) aux of
                                 Inl e \<Rightarrow> (Inl e, s4)
                               | Inr cons \<Rightarrow>
                                   (case cp_Problem_init env ob cons of
                                      Some e \<Rightarrow> (Inl e, s4)
                                    | None \<Rightarrow>
                                        (case alloc
                                                (CanonicalsObj
                                                  \<lparr>problem = Problem ob cons, objective = ob,
                                                   beta = b, parameters = Some ns,
                                                   auxiliaries = aux, constraints = cons\<rparr>) s4 of
                                           (c, s5) \<Rightarrow>
                                             (Inr (),
                                              emit (NewProblem c X y)
                                                (s5\<lparr>canonicals := Some c\<rparr>)))))))))))"

section \<open>The Fit Orchestrator\<close>

text \<open>\<^verbatim>\<open>_solve\<close> (lines 412 to 419).\<close>

definition solve ::
  "env \<Rightarrow> ndarray \<Rightarrow> ndarray \<Rightarrow> (string \<times> pyval) list \<Rightarrow> estimator
    \<Rightarrow> (error + pyval) \<times> estimator" where
  "solve env X y opts s =
     (case canonicals s of
        None \<Rightarrow> (Inl (AttributeError ''canonicals_''), s)
      | Some c \<Rightarrow>
          (case heap s c of
             Some (CanonicalsObj cv) \<Rightarrow>
               (cp_solve env (heap s) (problem cv) (beta cv) (solver s) (warm_start s) opts,
                emit (Solve c X y) s)
           | _ \<Rightarrow> (Inl (AttributeError ''problem''), s)))"

text \<open>
  \<^verbatim>\<open>fit\<close> (lines 122 to 197) in three parts. Lines 149 to 169: validation and
  preprocessing of the data and validation of the hyperparameters; this part assigns no
  attribute.
\<close>

definition fit_prepare ::
  "env \<Rightarrow> ndarray \<Rightarrow> ndarray \<Rightarrow> ndarray option \<Rightarrow> estimator
    \<Rightarrow> error + ndarray \<times> ndarray \<times> ndarray \<times> ndarray \<times> ndarray" where
  "fit_prepare env X y sample_weight s =
     (case validate_data env X y of
        Inl e \<Rightarrow> Inl e
      | Inr (X1, y1) \<Rightarrow>
          (case (case sample_weight of
                   None \<Rightarrow> Inr None
                 | Some sw \<Rightarrow>
                     (case check_sample_weight env sw X1 of
                        Inl e \<Rightarrow> Inl e
                      | Inr sw1 \<Rightarrow>
                          (case rescale_sample_weight X1 sw1 of
                             Inl e \<Rightarrow> Inl e
                           | Inr sw2 \<Rightarrow> Inr (Some sw2)))) of
             Inl e \<Rightarrow> Inl e
           | Inr sw' \<Rightarrow>
               (case preprocess_data env X1 y1 (copy_X s) (fit_intercept s) sw' of
                  Inl e \<Rightarrow> Inl e
                | Inr (X2, y2, X_offset, y_offset, X_scale) \<Rightarrow>
                    (case (case sw' of
                             None \<Rightarrow> Inr (X2, y2)
                           | Some w \<Rightarrow> rescale_data env X2 y2 w) of
                       Inl e \<Rightarrow> Inl e
                     | Inr (X3, y3) \<Rightarrow>
                         (case validate_params env s X3 y3 of
                            Some e \<Rightarrow> Inl e
                          | None \<Rightarrow> Inr (X3, y3, X_offset, y_offset, X_scale))))))"

text \<open>
  Lines 171 to 187: build the problem, or reuse it. The two \<^verbatim>\<open>hasattr\<close> tests of
  lines 176 to 179 leave an existing cache as it is.
\<close>

definition fit_problem ::
  "env \<Rightarrow> ndarray \<Rightarrow> ndarray \<Rightarrow> estimator \<Rightarrow> (error + unit) \<times> estimator" where
  "fit_problem env X y s =
     (case (if canonicals s = None \<or> \<not> warm_start s then generate_problem env X y s
            else (Inr (), s)) of
        (Inl e, s1) \<Rightarrow> (Inl e, s1)
      | (Inr u, s1) \<Rightarrow>
          if warm_start s1 then
            (let cx = (case cached_X s1 of None \<Rightarrow> X | Some c \<Rightarrow> c);
                 cy = (case cached_y s1 of None \<Rightarrow> y | Some c \<Rightarrow> c);
                 s2 = s1\<lparr>cached_X := Some cx, cached_y := Some cy\<rparr>
             in if \<not> array_equal cx X \<or> \<not> array_equal cy y then generate_problem env X y s2
                else set_param_values env s2)
          else (Inr (), s1))"

text \<open>Lines 189 to 194: the solver options, the solve, the coefficients and the intercept.\<close>

definition fit_solve ::
  "env \<Rightarrow> ndarray \<Rightarrow> ndarray \<Rightarrow> ndarray \<Rightarrow> ndarray \<Rightarrow> ndarray \<Rightarrow> estimator
    \<Rightarrow> (error + unit) \<times> estimator" where
  "fit_solve env X y X_offset y_offset X_scale s =
     (case (case solver_options s of VNone \<Rightarrow> VDict [] | v \<Rightarrow> v) of
        VDict opts \<Rightarrow>
          (case solve env X y opts s of
             (Inl e, s1) \<Rightarrow> (Inl e, s1)
           | (Inr v, s1) \<Rightarrow>
               (let s2 = s1\<lparr>coef := Some v\<rparr>
                in case set_intercept env (fit_intercept s2) v X_offset y_offset X_scale of
                     Inl e \<Rightarrow> (Inl e, s2)
                   | Inr (c, i) \<Rightarrow> (Inr (), s2\<lparr>coef := Some c, intercept := Some i\<rparr>)))
      | _ \<Rightarrow> (Inl (TypeError ''solver_options must be a dictionary''), s))"

definition fit ::
  "env \<Rightarrow> ndarray \<Rightarrow> ndarray \<Rightarrow> ndarray option \<Rightarrow> estimator \<Rightarrow> (error + unit) \<times> estimator" where
  "fit env X y sample_weight s =
     (case fit_prepare env X y sample_weight s of
        Inl e \<Rightarrow> (Inl e, s)
      | Inr (X', y', X_offset, y_offset, X_scale) \<Rightarrow>
          (case fit_problem env X' y' s of
             (Inl e, s1) \<Rightarrow> (Inl e, s1)
           | (Inr u, s1) \<Rightarrow> fit_solve env X' y' X_offset y_offset X_scale s1))"

section \<open>Well-formed states and observations\<close>

text \<open>
  Addresses are handed out in increasing order and never reused; in a well-formed store
  nothing lives at or above the next address, and \<^verbatim>\<open>canonicals_\<close> names an address
  that was handed out.
\<close>

definition heap_ok :: "estimator \<Rightarrow> bool" where
  "heap_ok s =
     ((\<forall>a. next_addr s \<le> a \<longrightarrow> heap s a = None) \<and>
      (\<forall>c. canonicals s = Some c \<longrightarrow> c < next_addr s))"

text \<open>
  The Parameter handles of the current Problem Descriptor are pairwise distinct objects
  (as they are after \<^verbatim>\<open>_generate_params\<close>, which constructs one per name).
\<close>

definition distinct_handles :: "estimator \<Rightarrow> bool" where
  "distinct_handles s =
     (case canonicals s of
        None \<Rightarrow> True
      | Some c \<Rightarrow>
          (case heap s c of
             Some (CanonicalsObj cv) \<Rightarrow>
               (case parameters cv of None \<Rightarrow> True | Some ns \<Rightarrow> distinct (map snd ns))
           | _ \<Rightarrow> True))"

fun is_Solve :: "event \<Rightarrow> bool" where
  "is_Solve (Solve c X y) = True"
| "is_Solve _ = False"

fun is_NewProblem :: "event \<Rightarrow> bool" where
  "is_NewProblem (NewProblem c X y) = True"
| "is_NewProblem _ = False"

text \<open>The training data an event was given, if it was given any.\<close>

fun event_data :: "event \<Rightarrow> (ndarray \<times> ndarray) option" where
  "event_data (NewProblem c X y) = Some (X, y)"
| "event_data (Solve c X y) = Some (X, y)"
| "event_data _ = None"

text \<open>The events a call appended to the trace.\<close>

definition new_events :: "estimator \<Rightarrow> estimator \<Rightarrow> event list" where
  "new_events s s' = drop (length (trace s)) (trace s')"

text \<open>
  Two states with the same constructor arguments and class attributes, and two states
  that moreover agree on the training-data cache, the coefficients and the intercept.
\<close>

definition same_settings :: "estimator \<Rightarrow> estimator \<Rightarrow> bool" where
  "same_settings s s' =
     (fit_intercept s' = fit_intercept s \<and> copy_X s' = copy_X s \<and>
      warm_start s' = warm_start s \<and> solver s' = solver s \<and>
      solver_options s' = solver_options s \<and> hyperparams s' = hyperparams s \<and>
      cvx_parameter_constraints s' = cvx_parameter_constraints s \<and>
      tikhonov_w s' = tikhonov_w s)"

definition same_fitted :: "estimator \<Rightarrow> estimator \<Rightarrow> bool" where
  "same_fitted s s' =
     (cached_X s' = cached_X s \<and> cached_y s' = cached_y s \<and> coef s' = coef s \<and>
      intercept s' = intercept s)"

section \<open>A concrete estimator\<close>

text \<open>
  An estimator as \<^verbatim>\<open>__init__\<close> (lines 89 to 120) leaves it, and a ridge regression
  built from the Tikhonov mixin over a least-squares objective, with the hyperparameter
  \<^verbatim>\<open>eta\<close> declared as \<^verbatim>\<open>Interval(Real, 0, None, closed="left")\<close>. The collaborators
  of \<open>plain_env\<close> accept everything and leave the data as it is; its solver returns a
  fixed vector. The solver of \<open>failing_env\<close> raises when the solver options allow it no
  iteration. \<open>ols_env\<close> is for a plain least-squares estimator, without the mixin and
  without solver-parameterized hyperparameters.
\<close>

definition new_estimator :: estimator where
  "new_estimator =
     \<lparr>fit_intercept = False, copy_X = True, warm_start = False, solver = None,
      solver_options = VNone, hyperparams = [], cvx_parameter_constraints = None,
      tikhonov_w = None, canonicals = None, cached_X = None, cached_y = None,
      coef = None, intercept = None, heap = (\<lambda>a. None), next_addr = 0, trace = []\<rparr>"

definition ridge :: estimator where
  "ridge =
     new_estimator
       \<lparr>hyperparams := [(''eta'', VFloat (Fin 1))],
        cvx_parameter_constraints := Some [(''eta'', [Interval RealT (Some 0) None ClosedLeft])]\<rparr>"

definition least_squares ::
  "estimator \<Rightarrow> ndarray \<Rightarrow> ndarray \<Rightarrow> addr \<Rightarrow> addr namespace option \<Rightarrow> expr namespace option
    \<Rightarrow> error + expr" where
  "least_squares s X y b ps aux =
     Inr (SumSquares (Add (MatMul (ConstArray X) (VarRef b)) (Mul (Const (Fin (- 1))) (ConstArray y))))"

definition plain_env :: env where
  "plain_env =
     \<lparr>validate_data = (\<lambda>X y. Inr (X, y)),
      check_sample_weight = (\<lambda>sw X. Inr sw),
      preprocess_data = (\<lambda>X y cp fi sw. Inr (X, y, NDArray [] [Fin 0], NDArray [] [Fin 0], NDArray [] [Fin 1])),
      rescale_data = (\<lambda>X y sw. Inr (np_scale X (np_sum sw), np_scale y (np_sum sw))),
      validate_parameter_constraints = (\<lambda>cs ps. None),
      set_intercept = (\<lambda>fi c xo yo xs. Inr (c, VFloat (Fin 0))),
      installed_solvers = [''ECOS''],
      cp_Variable_init = (\<lambda>k. None),
      cp_Parameter_init = (\<lambda>v k. None),
      cp_Parameter_set = (\<lambda>k v. None),
      cp_Problem_init = (\<lambda>ob cons. None),
      mul_ones_like = (\<lambda>v old. Inr v),
      cp_solve = (\<lambda>h p b sv ws opts. Inr (VSeq [Fin 1, Fin 1])),
      generate_auxiliaries = default_generate_auxiliaries,
      generate_objective = Tikhonov_generate_objective least_squares,
      generate_constraints = default_generate_constraints\<rparr>"

definition failing_env :: env where
  "failing_env =
     plain_env
       \<lparr>cp_solve :=
          (\<lambda>h p b sv ws opts.
             if map_of opts ''max_iters'' = Some (VInt 0) then Inl (SolverError ''max_iters'')
             else Inr (VSeq [Fin 1, Fin 1]))\<rparr>"

definition ols_env :: env where
  "ols_env = plain_env\<lparr>generate_objective := least_squares\<rparr>"

text \<open>The data of the specification's scenario, and the same with one entry changed.\<close>

definition X_A :: ndarray where
  "X_A = NDArray [3, 2] [Fin 1, Fin 0, Fin 0, Fin 1, Fin 1, Fin 1]"

definition y_A :: ndarray where
  "y_A = NDArray [3] [Fin 1, Fin 1, Fin 2]"

definition X_B :: ndarray where
  "X_B = NDArray [3, 2] [Fin 1, Fin 0, Fin 0, Fin 1, Fin 1, Fin 5]"

text \<open>
  Histories of the ridge estimator. \<open>cold_A\<close>: fitted once on \<open>X_A\<close> without warm
  start. \<open>built_A\<close>: warm start enabled and \<^verbatim>\<open>generate_problem\<close> called directly on
  \<open>X_A\<close>. \<open>warm_A\<close>: fitted once on \<open>X_A\<close> with warm start; \<open>warm_AB\<close>: then fitted
  on \<open>X_B\<close>.
\<close>

definition cold_A :: estimator where
  "cold_A = snd (fit plain_env X_A y_A None ridge)"

definition built_A :: estimator where
  "built_A = snd (generate_problem plain_env X_A y_A (ridge\<lparr>warm_start := True\<rparr>))"

definition warm_A :: estimator where
  "warm_A = snd (fit plain_env X_A y_A None (ridge\<lparr>warm_start := True\<rparr>))"

definition warm_AB :: estimator where
  "warm_AB = snd (fit plain_env X_B y_A None warm_A)"

section \<open>What each operation leaves alone\<close>

lemma get_params_same: "same_settings s s' \<Longrightarrow> get_params s' = get_params s"
  by (simp add: same_settings_def get_params_def)

lemma constraints_loop_frame:
  "constraints_loop env name cs vk ps s = (r, s') \<Longrightarrow>
     same_settings s s' \<and> same_fitted s s' \<and> canonicals s' = canonicals s \<and>
     trace s' = trace s \<and> next_addr s \<le> next_addr s' \<and>
     (\<forall>a. a < next_addr s \<longrightarrow> heap s' a = heap s a)"
proof (induction cs arbitrary: vk ps s)
  case Nil
  then show ?case by (simp add: same_settings_def same_fitted_def)
next
  case (Cons c cs)
  obtain v k where vk: "constraint_kwargs c vk = (v, k)" by (cases "constraint_kwargs c vk")
  show ?case
  proof (cases "cp_Parameter_init env v k")
    case (Some e)
    with Cons.prems vk show ?thesis by (simp add: same_settings_def same_fitted_def)
  next
    case None
    let ?s1 = "s\<lparr>heap := (heap s)(next_addr s \<mapsto> ParameterObj v k), next_addr := Suc (next_addr s)\<rparr>"
    from Cons.prems vk None
    have run: "constraints_loop env name cs (v, k) (AList.update name (next_addr s) ps) ?s1 = (r, s')"
      by (simp add: alloc_def)
    from Cons.IH[OF run] show ?thesis
      by (simp add: same_settings_def same_fitted_def)
  qed
qed

lemma params_loop_frame:
  "params_loop env cc ps ns s = (r, s') \<Longrightarrow>
     same_settings s s' \<and> same_fitted s s' \<and> canonicals s' = canonicals s \<and>
     trace s' = trace s \<and> next_addr s \<le> next_addr s' \<and>
     (\<forall>a. a < next_addr s \<longrightarrow> heap s' a = heap s a)"
proof (induction ps arbitrary: ns s)
  case Nil
  then show ?case by (simp add: same_settings_def same_fitted_def)
next
  case (Cons p rest)
  obtain name v where p: "p = (name, v)" by (cases p)
  show ?case
  proof (cases "map_of cc name")
    case None
    with Cons.prems p have "params_loop env cc rest ns s = (r, s')" by simp
    from Cons.IH[OF this] show ?thesis .
  next
    case (Some cs)
    obtain r1 s1 where c1: "constraints_loop env name cs (v, no_kwargs) ns s = (r1, s1)"
      by (cases "constraints_loop env name cs (v, no_kwargs) ns s")
    note f1 = constraints_loop_frame[OF c1]
    show ?thesis
    proof (cases r1)
      case (Inl e)
      with Cons.prems p Some c1 have "s' = s1" by simp
      with f1 show ?thesis by simp
    next
      case (Inr ns')
      with Cons.prems p Some c1 have run: "params_loop env cc rest ns' s1 = (r, s')" by simp
      note f2 = Cons.IH[OF run]
      from f1 f2 show ?thesis
        by (auto simp: same_settings_def same_fitted_def)
    qed
  qed
qed

lemma generate_params_frame:
  "generate_params env X y s = (r, s') \<Longrightarrow>
     same_settings s s' \<and> same_fitted s s' \<and> canonicals s' = canonicals s \<and>
     trace s' = trace s \<and> next_addr s \<le> next_addr s' \<and>
     (\<forall>a. a < next_addr s \<longrightarrow> heap s' a = heap s a)"
  unfolding generate_params_def by (rule params_loop_frame)

lemma generate_problem_frame:
  assumes gp: "generate_problem env X y s = (r, s')"
  shows "same_settings s s' \<and> same_fitted s s' \<and> next_addr s \<le> next_addr s' \<and>
         (\<forall>a. a < next_addr s \<longrightarrow> heap s' a = heap s a) \<and>
         (\<exists>evs. trace s' = trace s @ evs \<and>
            (\<forall>ev \<in> set evs. \<not> is_Solve ev \<and>
               (event_data ev = None \<or> event_data ev = Some (X, y)))) \<and>
         (\<forall>e. r = Inl e \<longrightarrow> canonicals s' = canonicals s)"
proof (cases "shape_at X 1")
  case (Inl e)
  with gp have "s' = s" by (simp add: generate_problem_def)
  then show ?thesis by (simp add: same_settings_def same_fitted_def)
next
  case (Inr k)
  show ?thesis
  proof (cases "cp_Variable_init env k")
    case (Some e)
    with gp Inr have "s' = s" by (simp add: generate_problem_def)
    then show ?thesis by (simp add: same_settings_def same_fitted_def)
  next
    case None
  define s0 where "s0 = s\<lparr>heap := (heap s)(next_addr s \<mapsto> VariableObj k),
     next_addr := Suc (next_addr s),
     trace := trace s @ [NewVariable (next_addr s) k, GenerateParams]\<rparr>"
  obtain r1 s1 where g1: "generate_params env X y s0 = (r1, s1)"
    by (cases "generate_params env X y s0")
  note f1 = generate_params_frame[OF g1]
  from gp Inr None g1 have step:
    "same_settings s1 s' \<and> same_fitted s1 s' \<and> next_addr s1 \<le> next_addr s' \<and>
     (\<forall>a. a < next_addr s1 \<longrightarrow> heap s' a = heap s1 a) \<and>
     (\<exists>evs. trace s' = trace s1 @ evs \<and>
            (\<forall>ev \<in> set evs. \<not> is_Solve ev \<and>
               (event_data ev = None \<or> event_data ev = Some (X, y)))) \<and>
     (\<forall>e. r = Inl e \<longrightarrow> canonicals s' = canonicals s1)"
    by (auto simp: generate_problem_def alloc_def emit_def Let_def s0_def
          same_settings_def same_fitted_def
          split: sum.splits prod.splits option.splits)
  then obtain evs where t2: "trace s' = trace s1 @ evs"
    "\<forall>ev \<in> set evs. \<not> is_Solve ev \<and> (event_data ev = None \<or> event_data ev = Some (X, y))"
    by blast
  from f1 t2 have "trace s' = trace s @ ([NewVariable (next_addr s) k, GenerateParams] @ evs)"
    "\<forall>ev \<in> set ([NewVariable (next_addr s) k, GenerateParams] @ evs).
        \<not> is_Solve ev \<and> (event_data ev = None \<or> event_data ev = Some (X, y))"
    by (simp_all add: s0_def)
  then have tr: "\<exists>evs. trace s' = trace s @ evs \<and>
      (\<forall>ev \<in> set evs. \<not> is_Solve ev \<and> (event_data ev = None \<or> event_data ev = Some (X, y)))"
    by blast
  have hp: "\<forall>a. a < next_addr s \<longrightarrow> heap s' a = heap s a"
  proof (intro allI impI)
    fix a assume a: "a < next_addr s"
    with f1 have "a < next_addr s1" by (simp add: s0_def)
    with step have "heap s' a = heap s1 a" by blast
    with f1 a show "heap s' a = heap s a" by (simp add: s0_def)
  qed
  from f1 step have "same_settings s s'" "same_fitted s s'" "next_addr s \<le> next_addr s'"
    "\<forall>e. r = Inl e \<longrightarrow> canonicals s' = canonicals s"
    by (auto simp: s0_def same_settings_def same_fitted_def)
  with tr hp show ?thesis by blast
  qed
qed

text \<open>Writing a value into a Parameter changes neither the lookups nor the handles.\<close>

lemma lookup_parameter_upd:
  "heap s a = Some (ParameterObj old k) \<Longrightarrow>
     lookup_parameter (s\<lparr>heap := (heap s)(a \<mapsto> ParameterObj v k')\<rparr>) n = lookup_parameter s n"
  by (auto simp: lookup_parameter_def split: option.splits obj.splits)

lemma distinct_handles_upd:
  "heap s a = Some (ParameterObj old k) \<Longrightarrow>
     distinct_handles (s\<lparr>heap := (heap s)(a \<mapsto> ParameterObj v k')\<rparr>) = distinct_handles s"
  by (auto simp: distinct_handles_def split: option.splits obj.splits)

lemma set_param_values_loop_frame:
  "set_param_values_loop env ps s = (r, s') \<Longrightarrow>
     same_settings s s' \<and> same_fitted s s' \<and> canonicals s' = canonicals s \<and>
     trace s' = trace s \<and> next_addr s' = next_addr s \<and>
     (\<forall>a. heap s' a = heap s a \<or>
          (\<exists>old k v. heap s a = Some (ParameterObj old k) \<and> heap s' a = Some (ParameterObj v k)))"
proof (induction env ps s rule: set_param_values_loop.induct)
  case (1 env s)
  then show ?case by (simp add: same_settings_def same_fitted_def)
next
  case (2 env parameter v rest s)
  show ?case
  proof (cases "cvx_parameter_constraints s")
    case None
    with "2.prems" show ?thesis by (simp add: same_settings_def same_fitted_def)
  next
    case (Some cc)
    show ?thesis
    proof (cases "map_of cc parameter")
      case None
      with "2.prems" Some have "set_param_values_loop env rest s = (r, s')" by simp
      from "2.IH"(1)[OF Some None this] show ?thesis .
    next
      case cs: (Some cs)
      show ?thesis
      proof (cases "lookup_parameter s parameter")
        case (Inl e)
        with "2.prems" Some cs show ?thesis by (simp add: same_settings_def same_fitted_def)
      next
        case (Inr a)
        show ?thesis
        proof (cases "\<exists>old k v'. heap s a = Some (ParameterObj old k) \<and>
                  coerce_value env v old = Inr v' \<and> cp_Parameter_set env k v' = None")
          case False
          with "2.prems" Some cs Inr have "s' = s"
            by (auto split: option.splits obj.splits sum.splits)
          then show ?thesis by (simp add: same_settings_def same_fitted_def)
        next
          case True
          then obtain old k v' where h: "heap s a = Some (ParameterObj old k)"
            and co: "coerce_value env v old = Inr v'" and st: "cp_Parameter_set env k v' = None"
            by blast
          let ?s1 = "s\<lparr>heap := (heap s)(a \<mapsto> ParameterObj v' k)\<rparr>"
          from "2.prems" Some cs Inr h co st
          have run: "set_param_values_loop env rest ?s1 = (r, s')" by simp
          note ih = "2.IH"(2)[OF Some cs Inr h _ co st run]
          from ih have fr: "same_settings s s'" "same_fitted s s'" "canonicals s' = canonicals s"
            "trace s' = trace s" "next_addr s' = next_addr s"
            by (simp_all add: same_settings_def same_fitted_def)
          have "\<forall>b. heap s' b = heap s b \<or>
              (\<exists>old k v. heap s b = Some (ParameterObj old k) \<and> heap s' b = Some (ParameterObj v k))"
          proof
            fix b
            from ih have d: "heap s' b = heap ?s1 b \<or>
              (\<exists>old k v. heap ?s1 b = Some (ParameterObj old k) \<and> heap s' b = Some (ParameterObj v k))"
              by blast
            show "heap s' b = heap s b \<or>
              (\<exists>old k v. heap s b = Some (ParameterObj old k) \<and> heap s' b = Some (ParameterObj v k))"
            proof (cases "b = a")
              case True
              with d h show ?thesis by auto
            next
              case False
              with d show ?thesis by simp
            qed
          qed
          with fr show ?thesis by blast
        qed
      qed
    qed
  qed
qed

lemma handle_inj:
  assumes "distinct (map snd ns)" "map_of ns x = Some a" "map_of ns y = Some a"
  shows "x = y"
proof -
  from assms(2,3) have "(x, a) \<in> set ns" "(y, a) \<in> set ns" by (auto dest: map_of_SomeD)
  moreover from assms(1) have "inj_on snd (set ns)" by (simp add: distinct_map)
  ultimately have "(x, a) = (y, a)" by (intro inj_onD[of snd "set ns"]) simp_all
  then show ?thesis by simp
qed

lemma lookup_parameter_inj:
  "distinct_handles s \<Longrightarrow> lookup_parameter s x = Inr a \<Longrightarrow> lookup_parameter s y = Inr a \<Longrightarrow> x = y"
  by (auto simp: distinct_handles_def lookup_parameter_def
        split: option.splits obj.splits dest: handle_inj)

lemma set_param_values_loop_untouched:
  "set_param_values_loop env ps s = (r, s') \<Longrightarrow>
     (\<forall>n \<in> fst ` set ps. lookup_parameter s n \<noteq> Inr a) \<Longrightarrow> heap s' a = heap s a"
proof (induction env ps s rule: set_param_values_loop.induct)
  case (1 env s)
  then show ?case by simp
next
  case (2 env parameter v rest s)
  show ?case
  proof (cases "cvx_parameter_constraints s")
    case None
    with "2.prems" show ?thesis by simp
  next
    case (Some cc)
    show ?thesis
    proof (cases "map_of cc parameter")
      case None
      with "2.prems" Some have "set_param_values_loop env rest s = (r, s')" by simp
      from "2.IH"(1)[OF Some None this] "2.prems"(2) show ?thesis by simp
    next
      case cs: (Some cs)
      show ?thesis
      proof (cases "lookup_parameter s parameter")
        case (Inl e)
        with "2.prems" Some cs show ?thesis by simp
      next
        case (Inr a0)
        show ?thesis
        proof (cases "\<exists>old k v'. heap s a0 = Some (ParameterObj old k) \<and>
                  coerce_value env v old = Inr v' \<and> cp_Parameter_set env k v' = None")
          case False
          with "2.prems" Some cs Inr have "s' = s"
            by (auto split: option.splits obj.splits sum.splits)
          then show ?thesis by simp
        next
          case True
          then obtain old k v' where h: "heap s a0 = Some (ParameterObj old k)"
            and co: "coerce_value env v old = Inr v'" and st: "cp_Parameter_set env k v' = None"
            by blast
          let ?s1 = "s\<lparr>heap := (heap s)(a0 \<mapsto> ParameterObj v' k)\<rparr>"
          from "2.prems" Some cs Inr h co st
          have run: "set_param_values_loop env rest ?s1 = (r, s')" by simp
          from "2.prems"(2) have "\<forall>n \<in> fst ` set rest. lookup_parameter ?s1 n \<noteq> Inr a"
            by (simp add: lookup_parameter_upd[OF h])
          from "2.IH"(2)[OF Some cs Inr h _ co st run this] have "heap s' a = heap ?s1 a"
            by simp
          moreover from "2.prems"(2) Inr have "a \<noteq> a0" by auto
          ultimately show ?thesis by simp
        qed
      qed
    qed
  qed
qed

lemma set_param_values_loop_written:
  "set_param_values_loop env ps s = (Inr u, s') \<Longrightarrow>
   cvx_parameter_constraints s = Some cc \<Longrightarrow> distinct (map fst ps) \<Longrightarrow> distinct_handles s \<Longrightarrow>
   (name, v) \<in> set ps \<Longrightarrow> map_of cc name = Some cs \<Longrightarrow>
   \<exists>a old k v'. lookup_parameter s name = Inr a \<and> heap s a = Some (ParameterObj old k) \<and>
      coerce_value env v old = Inr v' \<and> heap s' a = Some (ParameterObj v' k)"
proof (induction env ps s rule: set_param_values_loop.induct)
  case (1 env s)
  then show ?case by simp
next
  case (2 env parameter w rest s)
  note cc = "2.prems"(2)
  show ?case
  proof (cases "map_of cc parameter")
    case None
    with "2.prems"(1) cc have run: "set_param_values_loop env rest s = (Inr u, s')" by simp
    from None "2.prems"(5,6) have "(name, v) \<in> set rest" by auto
    with "2.IH"(1)[OF cc None run cc] "2.prems"(3,4,6) show ?thesis by simp
  next
    case cs': (Some cs')
    from "2.prems"(1) cc cs' obtain a0 where lk: "lookup_parameter s parameter = Inr a0"
      by (cases "lookup_parameter s parameter") auto
    from "2.prems"(1) cc cs' lk obtain old k v' where h: "heap s a0 = Some (ParameterObj old k)"
      and co: "coerce_value env w old = Inr v'" and st: "cp_Parameter_set env k v' = None"
      by (auto split: option.splits obj.splits sum.splits)
    let ?s1 = "s\<lparr>heap := (heap s)(a0 \<mapsto> ParameterObj v' k)\<rparr>"
    from "2.prems"(1) cc cs' lk h co st
    have run: "set_param_values_loop env rest ?s1 = (Inr u, s')" by simp
    show ?thesis
    proof (cases "name = parameter")
      case True
      with "2.prems"(3,5) have vw: "v = w" by (auto simp: image_iff)
      have "\<forall>n \<in> fst ` set rest. lookup_parameter ?s1 n \<noteq> Inr a0"
      proof
        fix n assume n: "n \<in> fst ` set rest"
        with "2.prems"(3) have "n \<noteq> parameter" by auto
        with lookup_parameter_inj[OF "2.prems"(4) _ lk, of n] have "lookup_parameter s n \<noteq> Inr a0"
          by blast
        then show "lookup_parameter ?s1 n \<noteq> Inr a0" by (simp add: lookup_parameter_upd[OF h])
      qed
      from set_param_values_loop_untouched[OF run this] have "heap s' a0 = Some (ParameterObj v' k)"
        by simp
      with True vw lk h co show ?thesis by blast
    next
      case False
      with "2.prems"(5) have mem: "(name, v) \<in> set rest" by simp
      have cc1: "cvx_parameter_constraints ?s1 = Some cc" using cc by simp
      have dh1: "distinct_handles ?s1" using "2.prems"(4) by (simp add: distinct_handles_upd[OF h])
      from "2.prems"(3) have dr: "distinct (map fst rest)" by simp
      from "2.IH"(2)[OF cc cs' lk h _ co st run cc1 dr dh1 mem "2.prems"(6)]
      obtain a old1 k1 v1 where r: "lookup_parameter ?s1 name = Inr a"
        "heap ?s1 a = Some (ParameterObj old1 k1)" "coerce_value env v old1 = Inr v1"
        "heap s' a = Some (ParameterObj v1 k1)" by auto
      from r(1) have lk2: "lookup_parameter s name = Inr a" by (simp add: lookup_parameter_upd[OF h])
      have "a \<noteq> a0"
      proof
        assume "a = a0"
        with lk2 have "lookup_parameter s name = Inr a0" by simp
        from lookup_parameter_inj[OF "2.prems"(4) this lk] False show False by simp
      qed
      with r(2) have "heap s a = Some (ParameterObj old1 k1)" by simp
      with lk2 r(3,4) show ?thesis by blast
    qed
  qed
qed

section \<open>The hints of the Parameter Translator\<close>

text \<open>A pass over a constraint only adds keyword arguments.\<close>

lemma interval_kwargs_keeps:
  "(kw_boolean k \<longrightarrow> kw_boolean (interval_kwargs ty l r cl k)) \<and>
   (kw_integer k \<longrightarrow> kw_integer (interval_kwargs ty l r cl k)) \<and>
   (kw_nonneg k \<longrightarrow> kw_nonneg (interval_kwargs ty l r cl k)) \<and>
   (kw_pos k \<longrightarrow> kw_pos (interval_kwargs ty l r cl k)) \<and>
   (kw_nonpos k \<longrightarrow> kw_nonpos (interval_kwargs ty l r cl k)) \<and>
   (kw_neg k \<longrightarrow> kw_neg (interval_kwargs ty l r cl k))"
  by (cases l; cases r; simp add: interval_kwargs_def Let_def)

lemma constraint_kwargs_keeps:
  "(kw_boolean k \<longrightarrow> kw_boolean (snd (constraint_kwargs c (v, k)))) \<and>
   (kw_integer k \<longrightarrow> kw_integer (snd (constraint_kwargs c (v, k)))) \<and>
   (kw_nonneg k \<longrightarrow> kw_nonneg (snd (constraint_kwargs c (v, k)))) \<and>
   (kw_pos k \<longrightarrow> kw_pos (snd (constraint_kwargs c (v, k)))) \<and>
   (kw_nonpos k \<longrightarrow> kw_nonpos (snd (constraint_kwargs c (v, k)))) \<and>
   (kw_neg k \<longrightarrow> kw_neg (snd (constraint_kwargs c (v, k))))"
  using interval_kwargs_keeps by (cases c) (simp_all add: Let_def)

lemma foldl_kwargs_keeps:
  "(kw_boolean (snd vk) \<longrightarrow> kw_boolean (snd (foldl (\<lambda>vk c. constraint_kwargs c vk) vk cs))) \<and>
   (kw_integer (snd vk) \<longrightarrow> kw_integer (snd (foldl (\<lambda>vk c. constraint_kwargs c vk) vk cs))) \<and>
   (kw_nonneg (snd vk) \<longrightarrow> kw_nonneg (snd (foldl (\<lambda>vk c. constraint_kwargs c vk) vk cs))) \<and>
   (kw_pos (snd vk) \<longrightarrow> kw_pos (snd (foldl (\<lambda>vk c. constraint_kwargs c vk) vk cs))) \<and>
   (kw_nonpos (snd vk) \<longrightarrow> kw_nonpos (snd (foldl (\<lambda>vk c. constraint_kwargs c vk) vk cs))) \<and>
   (kw_neg (snd vk) \<longrightarrow> kw_neg (snd (foldl (\<lambda>vk c. constraint_kwargs c vk) vk cs)))"
proof (induction cs arbitrary: vk)
  case Nil
  show ?case by simp
next
  case (Cons c cs)
  obtain v k where vk: "vk = (v, k)" by (cases vk)
  from Cons.IH[of "constraint_kwargs c vk"] constraint_kwargs_keeps[of k c v] vk
  show ?case by simp
qed

lemma interval_kwargs_hints:
  "(l = Some 0 \<and> (cl = ClosedLeft \<or> cl = ClosedBoth) \<longrightarrow> kw_nonneg (interval_kwargs ty l r cl k)) \<and>
   (l = Some 0 \<and> \<not> (cl = ClosedLeft \<or> cl = ClosedBoth) \<longrightarrow> kw_pos (interval_kwargs ty l r cl k)) \<and>
   (\<forall>x. l = Some x \<and> 0 < x \<longrightarrow> kw_pos (interval_kwargs ty l r cl k)) \<and>
   (r = Some 0 \<and> (cl = ClosedRight \<or> cl = ClosedBoth) \<longrightarrow> kw_nonpos (interval_kwargs ty l r cl k)) \<and>
   (r = Some 0 \<and> \<not> (cl = ClosedRight \<or> cl = ClosedBoth) \<longrightarrow> kw_neg (interval_kwargs ty l r cl k)) \<and>
   (\<forall>x. r = Some x \<and> x < 0 \<longrightarrow> kw_neg (interval_kwargs ty l r cl k)) \<and>
   (ty = IntegralT \<longrightarrow> kw_integer (interval_kwargs ty l r cl k))"
  by (cases l; cases r; simp add: interval_kwargs_def Let_def)

lemma final_kwargs_interval:
  assumes "Interval ty l r cl \<in> set cs"
  shows "(l = Some 0 \<and> (cl = ClosedLeft \<or> cl = ClosedBoth) \<longrightarrow> kw_nonneg (snd (final_kwargs cs v))) \<and>
   (l = Some 0 \<and> \<not> (cl = ClosedLeft \<or> cl = ClosedBoth) \<longrightarrow> kw_pos (snd (final_kwargs cs v))) \<and>
   (\<forall>x. l = Some x \<and> 0 < x \<longrightarrow> kw_pos (snd (final_kwargs cs v))) \<and>
   (r = Some 0 \<and> (cl = ClosedRight \<or> cl = ClosedBoth) \<longrightarrow> kw_nonpos (snd (final_kwargs cs v))) \<and>
   (r = Some 0 \<and> \<not> (cl = ClosedRight \<or> cl = ClosedBoth) \<longrightarrow> kw_neg (snd (final_kwargs cs v))) \<and>
   (\<forall>x. r = Some x \<and> x < 0 \<longrightarrow> kw_neg (snd (final_kwargs cs v))) \<and>
   (ty = IntegralT \<longrightarrow> kw_integer (snd (final_kwargs cs v)))"
proof -
  from assms obtain pre post where cs: "cs = pre @ Interval ty l r cl # post"
    by (auto dest: split_list)
  obtain v1 k1 where p: "foldl (\<lambda>vk c. constraint_kwargs c vk) (v, no_kwargs) pre = (v1, k1)"
    by (cases "foldl (\<lambda>vk c. constraint_kwargs c vk) (v, no_kwargs) pre")
  define K where "K = interval_kwargs ty l r cl k1"
  have fk: "final_kwargs cs v = foldl (\<lambda>vk c. constraint_kwargs c vk) (v1, K) post"
    by (simp add: final_kwargs_def cs p K_def)
  note hints = interval_kwargs_hints[of l cl ty r k1, folded K_def]
  note keeps = foldl_kwargs_keeps[of "(v1, K)" post, simplified]
  from hints keeps show ?thesis unfolding fk by blast
qed

text \<open>The Parameter that stays under a name carries the keyword arguments of all its constraints.\<close>

lemma constraints_loop_other:
  "constraints_loop env name cs vk ps s = (Inr ps', s') \<Longrightarrow> n \<noteq> name \<Longrightarrow>
     map_of ps' n = map_of ps n"
proof (induction cs arbitrary: vk ps s)
  case Nil
  then show ?case by simp
next
  case (Cons c cs)
  obtain v k where vk: "constraint_kwargs c vk = (v, k)" by (cases "constraint_kwargs c vk")
  from Cons.prems(1) vk have ok: "cp_Parameter_init env v k = None"
    by (cases "cp_Parameter_init env v k") auto
  with Cons.prems(1) vk
  have run: "constraints_loop env name cs (v, k) (AList.update name (next_addr s) ps)
      (s\<lparr>heap := (heap s)(next_addr s \<mapsto> ParameterObj v k), next_addr := Suc (next_addr s)\<rparr>) = (Inr ps', s')"
    by (simp add: alloc_def)
  from Cons.IH[OF run Cons.prems(2)] Cons.prems(2) show ?case
    by (simp add: update_conv')
qed

lemma constraints_loop_result:
  "constraints_loop env name cs vk ps s = (Inr ps', s') \<Longrightarrow> cs \<noteq> [] \<Longrightarrow>
     \<exists>a. map_of ps' name = Some a \<and> next_addr s \<le> a \<and> a < next_addr s' \<and>
         heap s' a = Some (ParameterObj (fst (foldl (\<lambda>vk c. constraint_kwargs c vk) vk cs))
                                        (snd (foldl (\<lambda>vk c. constraint_kwargs c vk) vk cs)))"
proof (induction cs arbitrary: vk ps s)
  case Nil
  then show ?case by simp
next
  case (Cons c cs)
  obtain v k where vk: "constraint_kwargs c vk = (v, k)" by (cases "constraint_kwargs c vk")
  from Cons.prems(1) vk have ok: "cp_Parameter_init env v k = None"
    by (cases "cp_Parameter_init env v k") auto
  let ?s1 = "s\<lparr>heap := (heap s)(next_addr s \<mapsto> ParameterObj v k), next_addr := Suc (next_addr s)\<rparr>"
  from ok Cons.prems(1) vk
  have run: "constraints_loop env name cs (v, k) (AList.update name (next_addr s) ps) ?s1 = (Inr ps', s')"
    by (simp add: alloc_def)
  show ?case
  proof (cases "cs = []")
    case True
    with run have "ps' = AList.update name (next_addr s) ps" "s' = ?s1" by simp_all
    with True vk show ?thesis by (simp add: update_conv')
  next
    case False
    from Cons.IH[OF run False] vk show ?thesis by auto
  qed
qed

lemma params_loop_other:
  "params_loop env cc ps ns s = (Inr ns', s') \<Longrightarrow> n \<notin> fst ` set ps \<Longrightarrow>
     map_of ns' n = map_of ns n"
proof (induction ps arbitrary: ns s)
  case Nil
  then show ?case by simp
next
  case (Cons p rest)
  obtain name v where p: "p = (name, v)" by (cases p)
  from Cons.prems(2) p have ne: "n \<noteq> name" and nr: "n \<notin> fst ` set rest" by auto
  show ?case
  proof (cases "map_of cc name")
    case None
    with Cons.prems(1) p have "params_loop env cc rest ns s = (Inr ns', s')" by simp
    from Cons.IH[OF this nr] show ?thesis .
  next
    case (Some cs)
    from Cons.prems(1) p Some obtain ns1 s1 where
      c1: "constraints_loop env name cs (v, no_kwargs) ns s = (Inr ns1, s1)"
      and run: "params_loop env cc rest ns1 s1 = (Inr ns', s')"
      by (auto split: prod.splits sum.splits)
    from Cons.IH[OF run nr] constraints_loop_other[OF c1 ne] show ?thesis by simp
  qed
qed

lemma params_loop_result:
  "params_loop env cc ps ns s = (Inr ns', s') \<Longrightarrow> distinct (map fst ps) \<Longrightarrow>
   (name, v) \<in> set ps \<Longrightarrow> map_of cc name = Some cs \<Longrightarrow> cs \<noteq> [] \<Longrightarrow>
     \<exists>a. map_of ns' name = Some a \<and> next_addr s \<le> a \<and> a < next_addr s' \<and>
         heap s' a = Some (ParameterObj (fst (final_kwargs cs v)) (snd (final_kwargs cs v)))"
proof (induction ps arbitrary: ns s)
  case Nil
  then show ?case by simp
next
  case (Cons p rest)
  obtain pn w where p: "p = (pn, w)" by (cases p)
  show ?case
  proof (cases "pn = name")
    case True
    with Cons.prems(2,3) p have vw: "w = v" and nr: "name \<notin> fst ` set rest"
      by (auto simp: image_iff)
    from Cons.prems(1,4) p True vw obtain ns1 s1 where
      c1: "constraints_loop env name cs (v, no_kwargs) ns s = (Inr ns1, s1)"
      and run: "params_loop env cc rest ns1 s1 = (Inr ns', s')"
      by (auto split: prod.splits sum.splits)
    from constraints_loop_result[OF c1 Cons.prems(5)] obtain a where
      a: "map_of ns1 name = Some a" "next_addr s \<le> a" "a < next_addr s1"
         "heap s1 a = Some (ParameterObj (fst (final_kwargs cs v)) (snd (final_kwargs cs v)))"
      by (auto simp: final_kwargs_def)
    from params_loop_frame[OF run] a(3) have "heap s' a = heap s1 a" "next_addr s1 \<le> next_addr s'"
      by simp_all
    with a params_loop_other[OF run nr] show ?thesis by auto
  next
    case False
    with Cons.prems(3) p have mem: "(name, v) \<in> set rest" by simp
    from Cons.prems(2) have dr: "distinct (map fst rest)" by simp
    show ?thesis
    proof (cases "map_of cc pn")
      case None
      with Cons.prems(1) p have run: "params_loop env cc rest ns s = (Inr ns', s')" by simp
      from Cons.IH[OF run dr mem Cons.prems(4,5)] show ?thesis .
    next
      case (Some cs')
      from Cons.prems(1) p Some obtain ns1 s1 where
        c1: "constraints_loop env pn cs' (w, no_kwargs) ns s = (Inr ns1, s1)"
        and run: "params_loop env cc rest ns1 s1 = (Inr ns', s')"
        by (auto split: prod.splits sum.splits)
      from Cons.IH[OF run dr mem Cons.prems(4,5)] constraints_loop_frame[OF c1]
      show ?thesis by auto
    qed
  qed
qed

lemma generate_params_result:
  assumes "generate_params env X y s = (Inr ns, s')"
    and "cvx_parameter_constraints s = Some cc"
    and "distinct (map fst (get_params s))"
    and "(name, v) \<in> set (get_params s)" and "map_of cc name = Some cs" and "cs \<noteq> []"
  shows "\<exists>a. map_of ns name = Some a \<and> next_addr s \<le> a \<and> a < next_addr s' \<and>
         heap s' a = Some (ParameterObj (fst (final_kwargs cs v)) (snd (final_kwargs cs v)))"
  using assms params_loop_result[of env cc "get_params s" "[]" s ns s' name v cs]
  by (simp add: generate_params_def)

lemma ridge_generate_params:
  "generate_params plain_env X_A y_A ridge =
     (Inr [(''eta'', 0)],
      ridge\<lparr>heap := (heap ridge)(0 \<mapsto> ParameterObj (VFloat (Fin 1)) (no_kwargs\<lparr>kw_nonneg := True\<rparr>)),
            next_addr := Suc 0\<rparr>)"
  by (simp add: generate_params_def get_params_def ridge_def new_estimator_def plain_env_def
        alloc_def interval_kwargs_def)

text \<open>
  Claim C4. For a solver-parameterized hyperparameter with an \<^verbatim>\<open>Interval\<close> among its
  declared constraints, the keyword arguments that \<^verbatim>\<open>_generate_params\<close> has accumulated
  after its constraints contain: \<open>nonneg\<close> for a lower bound of zero that is inclusive and
  \<open>pos\<close> for one that is exclusive; \<open>pos\<close> for a strictly positive lower bound;
  \<open>nonpos\<close> for an upper bound of zero that is inclusive and \<open>neg\<close> for one that is
  exclusive; \<open>neg\<close> for a strictly negative upper bound; and \<open>integer\<close> when the
  interval's type is \<^verbatim>\<open>Integral\<close>. When \<^verbatim>\<open>_generate_params\<close> returns, the Parameter
  it keeps under the hyperparameter's name was constructed with exactly these keyword
  arguments.
\<close>

theorem generate_params_interval_hints:
  assumes "cvx_parameter_constraints s = Some cc"
    and "distinct (map fst (get_params s))"
    and "(name, v) \<in> set (get_params s)"
    and "map_of cc name = Some cs"
    and "Interval ty l r cl \<in> set cs"
  shows "(l = Some 0 \<and> (cl = ClosedLeft \<or> cl = ClosedBoth) \<longrightarrow> kw_nonneg (snd (final_kwargs cs v))) \<and>
     (l = Some 0 \<and> \<not> (cl = ClosedLeft \<or> cl = ClosedBoth) \<longrightarrow> kw_pos (snd (final_kwargs cs v))) \<and>
     (\<forall>x. l = Some x \<and> 0 < x \<longrightarrow> kw_pos (snd (final_kwargs cs v))) \<and>
     (r = Some 0 \<and> (cl = ClosedRight \<or> cl = ClosedBoth) \<longrightarrow> kw_nonpos (snd (final_kwargs cs v))) \<and>
     (r = Some 0 \<and> \<not> (cl = ClosedRight \<or> cl = ClosedBoth) \<longrightarrow> kw_neg (snd (final_kwargs cs v))) \<and>
     (\<forall>x. r = Some x \<and> x < 0 \<longrightarrow> kw_neg (snd (final_kwargs cs v))) \<and>
     (ty = IntegralT \<longrightarrow> kw_integer (snd (final_kwargs cs v))) \<and>
     (\<forall>ns s'. generate_params env X y s = (Inr ns, s') \<longrightarrow>
        (\<exists>a. map_of ns name = Some a \<and>
           heap s' a = Some (ParameterObj (fst (final_kwargs cs v)) (snd (final_kwargs cs v)))))"
proof -
  from assms(5) have ne: "cs \<noteq> []" by auto
  have "\<forall>ns s'. generate_params env X y s = (Inr ns, s') \<longrightarrow>
        (\<exists>a. map_of ns name = Some a \<and>
           heap s' a = Some (ParameterObj (fst (final_kwargs cs v)) (snd (final_kwargs cs v))))"
    using generate_params_result[OF _ assms(1-4) ne] by blast
  with final_kwargs_interval[OF assms(5), of v] show ?thesis by blast
qed

theorem generate_params_interval_hints_witness:
  "Interval RealT (Some 0) None ClosedLeft \<in> set [Interval RealT (Some 0) None ClosedLeft] \<and>
   kw_nonneg (snd (final_kwargs [Interval RealT (Some 0) None ClosedLeft] (VFloat (Fin 1)))) \<and>
   (\<exists>a. map_of [(''eta'', 0::nat)] ''eta'' = Some a \<and>
      heap (snd (generate_params plain_env X_A y_A ridge)) a =
        Some (ParameterObj (fst (final_kwargs [Interval RealT (Some 0) None ClosedLeft] (VFloat (Fin 1))))
                           (snd (final_kwargs [Interval RealT (Some 0) None ClosedLeft] (VFloat (Fin 1))))))"
proof -
  have 1: "cvx_parameter_constraints ridge = Some [(''eta'', [Interval RealT (Some 0) None ClosedLeft])]"
    by (simp add: ridge_def new_estimator_def)
  have 2: "distinct (map fst (get_params ridge))"
    by (simp add: get_params_def ridge_def new_estimator_def)
  have 3: "(''eta'', VFloat (Fin 1)) \<in> set (get_params ridge)"
    by (simp add: get_params_def ridge_def new_estimator_def)
  have 4: "map_of [(''eta'', [Interval RealT (Some 0) None ClosedLeft])] ''eta'' =
       Some [Interval RealT (Some 0) None ClosedLeft]" by simp
  have 5: "Interval RealT (Some 0) None ClosedLeft \<in> set [Interval RealT (Some 0) None ClosedLeft]"
    by simp
  note T = generate_params_interval_hints[OF 1 2 3 4 5, of plain_env X_A y_A]
  from T have a: "kw_nonneg (snd (final_kwargs [Interval RealT (Some 0) None ClosedLeft] (VFloat (Fin 1))))"
    by blast
  from T ridge_generate_params
  have "\<exists>a. map_of [(''eta'', 0::nat)] ''eta'' = Some a \<and>
      heap (snd (generate_params plain_env X_A y_A ridge)) a =
        Some (ParameterObj (fst (final_kwargs [Interval RealT (Some 0) None ClosedLeft] (VFloat (Fin 1))))
                           (snd (final_kwargs [Interval RealT (Some 0) None ClosedLeft] (VFloat (Fin 1)))))"
    by (metis snd_conv)
  with a 5 show ?thesis by blast
qed

section \<open>Rescaling the sample weights\<close>





section \<open>What fit leaves alone, and the data its events carry\<close>

lemma set_param_values_frame:
  assumes "set_param_values env s = (r, s')"
  shows "same_settings s s' \<and> same_fitted s s' \<and> canonicals s' = canonicals s \<and>
     trace s' = trace s @ [SetParamValues] \<and> next_addr s' = next_addr s \<and>
     (\<forall>a. heap s' a = heap s a \<or>
          (\<exists>old k v. heap s a = Some (ParameterObj old k) \<and> heap s' a = Some (ParameterObj v k)))"
  using set_param_values_loop_frame[of env "get_params s" "emit SetParamValues s" r s'] assms
  by (simp add: set_param_values_def emit_def same_settings_def same_fitted_def)

lemma fit_solve_frame:
  assumes "fit_solve env X y xo yo xs s = (r, s')"
  shows "same_settings s s' \<and> canonicals s' = canonicals s \<and> cached_X s' = cached_X s \<and>
     cached_y s' = cached_y s \<and> heap s' = heap s \<and> next_addr s' = next_addr s \<and>
     (\<exists>evs. trace s' = trace s @ evs \<and> (\<forall>ev \<in> set evs. event_data ev = Some (X, y)))"
  using assms
  by (auto simp: fit_solve_def solve_def emit_def Let_def same_settings_def
        split: pyval.splits option.splits obj.splits sum.splits prod.splits)


text \<open>The definitions a concrete run unfolds.\<close>

lemmas model_defs =
  fit_def fit_prepare_def fit_problem_def fit_solve_def solve_def generate_problem_def
  generate_params_def set_param_values_def validate_params_def get_params_def
  lookup_parameter_def coerce_value_def alloc_def emit_def rescale_sample_weight_def
  shape_at_def np_scale_def np_sum_def array_equal_def interval_kwargs_def
  Tikhonov_generate_objective_def least_squares_def default_generate_auxiliaries_def
  default_generate_constraints_def matmul_ok_def np_eye_def inf_times_def
  plain_env_def failing_env_def ols_env_def ridge_def new_estimator_def X_A_def y_A_def X_B_def





section \<open>Solver options that are not a dictionary\<close>




section \<open>Warm start without solver-parameterized hyperparameters\<close>

text \<open>
  Claim C10. An estimator whose \<^verbatim>\<open>_cvx_parameter_constraints\<close> is \<^verbatim>\<open>None\<close> cannot
  complete a warm-start refit on unchanged data: \<^verbatim>\<open>fit\<close> reaches
  \<^verbatim>\<open>_set_param_values\<close>, whose membership test on \<^verbatim>\<open>None\<close> raises a TypeError;
  the solver is not invoked and the coefficients and the intercept stay as they were.
\<close>

theorem warm_refit_without_cvx_parameters_raises:
  assumes "cvx_parameter_constraints s = None" and "warm_start s"
    and "canonicals s = Some c" and "cached_X s = Some cx" and "cached_y s = Some cy"
    and "fit_prepare env X y sw s = Inr (X', y', xo, yo, xs)"
    and "array_equal cx X'" and "array_equal cy y'"
  shows "fst (fit env X y sw s) = Inl (TypeError ''argument of type NoneType is not iterable'') \<and>
         coef (snd (fit env X y sw s)) = coef s \<and>
         intercept (snd (fit env X y sw s)) = intercept s \<and>
         new_events s (snd (fit env X y sw s)) = [SetParamValues]"
  using assms
  by (simp add: fit_def fit_problem_def set_param_values_def get_params_def emit_def
        new_events_def)

text \<open>The first warm-start fit of such an estimator already ends in that error, after the problem was built and the data cached.\<close>

lemma first_warm_fit:
  "fst (fit ols_env X_A y_A None (new_estimator\<lparr>warm_start := True\<rparr>))
      = Inl (TypeError ''argument of type NoneType is not iterable'')"
  "cvx_parameter_constraints (snd (fit ols_env X_A y_A None (new_estimator\<lparr>warm_start := True\<rparr>))) = None"
  "warm_start (snd (fit ols_env X_A y_A None (new_estimator\<lparr>warm_start := True\<rparr>)))"
  "canonicals (snd (fit ols_env X_A y_A None (new_estimator\<lparr>warm_start := True\<rparr>))) = Some 1"
  "cached_X (snd (fit ols_env X_A y_A None (new_estimator\<lparr>warm_start := True\<rparr>))) = Some X_A"
  "cached_y (snd (fit ols_env X_A y_A None (new_estimator\<lparr>warm_start := True\<rparr>))) = Some y_A"
  by (simp_all add: model_defs Let_def)

lemma prepare_plain:
  "fit_prepare ols_env X_A y_A None s
     = Inr (X_A, y_A, NDArray [] [Fin 0], NDArray [] [Fin 0], NDArray [] [Fin 1])"
  by (simp add: fit_prepare_def ols_env_def plain_env_def validate_params_def)

theorem warm_refit_without_cvx_parameters_raises_witness:
  "cvx_parameter_constraints (snd (fit ols_env X_A y_A None (new_estimator\<lparr>warm_start := True\<rparr>))) = None \<and>
   warm_start (snd (fit ols_env X_A y_A None (new_estimator\<lparr>warm_start := True\<rparr>))) \<and>
   canonicals (snd (fit ols_env X_A y_A None (new_estimator\<lparr>warm_start := True\<rparr>))) = Some 1 \<and>
   cached_X (snd (fit ols_env X_A y_A None (new_estimator\<lparr>warm_start := True\<rparr>))) = Some X_A \<and>
   cached_y (snd (fit ols_env X_A y_A None (new_estimator\<lparr>warm_start := True\<rparr>))) = Some y_A \<and>
   array_equal X_A X_A \<and> array_equal y_A y_A \<and>
   fst (fit ols_env X_A y_A None
          (snd (fit ols_env X_A y_A None (new_estimator\<lparr>warm_start := True\<rparr>))))
     = Inl (TypeError ''argument of type NoneType is not iterable'')"
proof -
  have ax: "array_equal X_A X_A" by (simp add: array_equal_def X_A_def)
  have ay: "array_equal y_A y_A" by (simp add: array_equal_def y_A_def)
  from warm_refit_without_cvx_parameters_raises[OF first_warm_fit(2-6) prepare_plain ax ay]
    first_warm_fit ax ay
  show ?thesis by simp
qed

section \<open>A fit that raises\<close>




lemma ridge_fitted:
  "fst (fit failing_env X_A y_A None ridge) = Inr ()"
  "canonicals (snd (fit failing_env X_A y_A None ridge)) = Some 2"
  "coef (snd (fit failing_env X_A y_A None ridge)) = Some (VSeq [Fin 1, Fin 1])"
  by (simp_all add: model_defs Let_def)


section \<open>What the Problem Assembler builds\<close>

lemma generate_problem_Inr:
  assumes "generate_problem env X y s = (Inr u, s')"
  shows "\<exists>k ns s1 aux ob cons.
           shape_at X 1 = Inr k \<and>
           generate_params env X y
             (s\<lparr>heap := (heap s)(next_addr s \<mapsto> VariableObj k), next_addr := Suc (next_addr s),
                trace := trace s @ [NewVariable (next_addr s) k, GenerateParams]\<rparr>) = (Inr ns, s1) \<and>
           generate_auxiliaries env (emit GenerateAuxiliaries s1) X y (next_addr s) (Some ns) = Inr aux \<and>
           generate_objective env (emit GenerateObjective (emit GenerateAuxiliaries s1)) X y
             (next_addr s) (Some ns) aux = Inr ob \<and>
           generate_constraints env
             (emit GenerateConstraints (emit GenerateObjective (emit GenerateAuxiliaries s1))) X y
             (next_addr s) (Some ns) aux = Inr cons \<and>
           cp_Problem_init env ob cons = None \<and>
           s' = s1\<lparr>canonicals := Some (next_addr s1),
                   heap := (heap s1)(next_addr s1 \<mapsto>
                      CanonicalsObj \<lparr>problem = Problem ob cons, objective = ob, beta = next_addr s,
                         parameters = Some ns, auxiliaries = aux, constraints = cons\<rparr>),
                   next_addr := Suc (next_addr s1),
                   trace := trace s1 @ [GenerateAuxiliaries, GenerateObjective, GenerateConstraints,
                                        NewProblem (next_addr s1) X y]\<rparr>"
  using assms
  by (auto simp: generate_problem_def alloc_def emit_def Let_def
       split: sum.splits prod.splits option.splits)

lemma ridge_generate_problem:
  "fst (generate_problem plain_env X_A y_A ridge) = Inr ()"
  by (simp add: model_defs Let_def)

text \<open>
  Claim C6. A call of \<^verbatim>\<open>generate_problem\<close> on an \<open>n\<close> by \<open>k\<close> matrix that returns
  has created a fresh decision variable of length \<open>k\<close>, then called the Parameter
  Translator, then the hooks for the auxiliaries, the objective and the constraints in
  this order (each on the results of the earlier ones), and has stored under
  \<^verbatim>\<open>canonicals_\<close> an object that did not exist before and holds exactly the
  minimization problem over the objective and the constraints, the objective, the
  variable, the parameters, the auxiliaries and the constraints.
\<close>

theorem generate_problem_builds:
  assumes sh: "shape X = [n, k]"
    and hp: "heap_ok s"
    and gp: "generate_problem env X y s = (Inr u, s')"
  shows "\<exists>b c ns aux ob cons s1 s2 s3.
     b = next_addr s \<and> heap s b = None \<and> heap s' b = Some (VariableObj k) \<and>
     generate_params env X y (emit GenerateParams (emit (NewVariable b k) (snd (alloc (VariableObj k) s))))
        = (Inr ns, s1) \<and>
     s2 = emit GenerateAuxiliaries s1 \<and> generate_auxiliaries env s2 X y b (Some ns) = Inr aux \<and>
     s3 = emit GenerateObjective s2 \<and> generate_objective env s3 X y b (Some ns) aux = Inr ob \<and>
     generate_constraints env (emit GenerateConstraints s3) X y b (Some ns) aux = Inr cons \<and>
     canonicals s' = Some c \<and> heap s c = None \<and> canonicals s \<noteq> Some c \<and>
     heap s' c = Some (CanonicalsObj
        \<lparr>problem = Problem ob cons, objective = ob, beta = b, parameters = Some ns,
         auxiliaries = aux, constraints = cons\<rparr>) \<and>
     new_events s s' = [NewVariable b k, GenerateParams, GenerateAuxiliaries, GenerateObjective,
                        GenerateConstraints, NewProblem c X y]"
proof -
  from generate_problem_Inr[OF gp] obtain k' ns s1 aux ob cons where
    k': "shape_at X 1 = Inr k'"
    and g: "generate_params env X y
             (s\<lparr>heap := (heap s)(next_addr s \<mapsto> VariableObj k'), next_addr := Suc (next_addr s),
                trace := trace s @ [NewVariable (next_addr s) k', GenerateParams]\<rparr>) = (Inr ns, s1)"
    and a: "generate_auxiliaries env (emit GenerateAuxiliaries s1) X y (next_addr s) (Some ns) = Inr aux"
    and o: "generate_objective env (emit GenerateObjective (emit GenerateAuxiliaries s1)) X y
             (next_addr s) (Some ns) aux = Inr ob"
    and c: "generate_constraints env
             (emit GenerateConstraints (emit GenerateObjective (emit GenerateAuxiliaries s1))) X y
             (next_addr s) (Some ns) aux = Inr cons"
    and s': "s' = s1\<lparr>canonicals := Some (next_addr s1),
                   heap := (heap s1)(next_addr s1 \<mapsto>
                      CanonicalsObj \<lparr>problem = Problem ob cons, objective = ob, beta = next_addr s,
                         parameters = Some ns, auxiliaries = aux, constraints = cons\<rparr>),
                   next_addr := Suc (next_addr s1),
                   trace := trace s1 @ [GenerateAuxiliaries, GenerateObjective, GenerateConstraints,
                                        NewProblem (next_addr s1) X y]\<rparr>"
    by blast
  from k' sh have kk: "k' = k" by (simp add: shape_at_def)
  note fr = generate_params_frame[OF g]
  from fr have n1: "Suc (next_addr s) \<le> next_addr s1" by simp
  from fr have t1: "trace s1 = trace s @ [NewVariable (next_addr s) k', GenerateParams]" by simp
  from fr have hb: "heap s1 (next_addr s) = Some (VariableObj k')" by simp
  from fr have cs: "canonicals s1 = canonicals s" by simp
  from hp have f0: "heap s (next_addr s) = None" and f1: "heap s (next_addr s1) = None"
    using n1 by (simp_all add: heap_ok_def)
  from hp n1 have nc: "canonicals s \<noteq> Some (next_addr s1)" by (auto simp: heap_ok_def)
  have hb': "heap s' (next_addr s) = Some (VariableObj k)" using hb n1 kk by (simp add: s')
  have ev: "new_events s s' = [NewVariable (next_addr s) k, GenerateParams, GenerateAuxiliaries,
      GenerateObjective, GenerateConstraints, NewProblem (next_addr s1) X y]"
    by (simp add: new_events_def s' t1 kk)
  have g': "generate_params env X y
       (emit GenerateParams (emit (NewVariable (next_addr s) k) (snd (alloc (VariableObj k) s))))
        = (Inr ns, s1)"
    using g by (simp add: alloc_def emit_def kk)
  have cn: "canonicals s' = Some (next_addr s1)" by (simp add: s')
  have hc: "heap s' (next_addr s1) = Some (CanonicalsObj
        \<lparr>problem = Problem ob cons, objective = ob, beta = next_addr s, parameters = Some ns,
         auxiliaries = aux, constraints = cons\<rparr>)" by (simp add: s')
  from f0 f1 nc hb' ev g' a o c cn hc show ?thesis by blast
qed

theorem generate_problem_builds_witness:
  "shape X_A = [3, 2] \<and> heap_ok ridge \<and>
   fst (generate_problem plain_env X_A y_A ridge) = Inr () \<and>
   (\<exists>c. canonicals (snd (generate_problem plain_env X_A y_A ridge)) = Some c \<and>
      new_events ridge (snd (generate_problem plain_env X_A y_A ridge)) =
        [NewVariable 0 2, GenerateParams, GenerateAuxiliaries, GenerateObjective,
         GenerateConstraints, NewProblem c X_A y_A])"
proof -
  have 1: "shape X_A = [3, 2]" by (simp add: X_A_def)
  have 2: "heap_ok ridge" by (simp add: heap_ok_def ridge_def new_estimator_def)
  have 3: "generate_problem plain_env X_A y_A ridge
      = (Inr (), snd (generate_problem plain_env X_A y_A ridge))"
    using ridge_generate_problem by (metis prod.collapse)
  have 4: "next_addr ridge = 0" by (simp add: ridge_def new_estimator_def)
  from generate_problem_builds[OF 1 2 3] 1 2 4 ridge_generate_problem
  show ?thesis by auto
qed

section \<open>The objective of the Tikhonov mixin\<close>

lemma Tikhonov_generate_objective_Inr:
  assumes "Tikhonov_generate_objective super s X y b ps aux = Inr ob" and "shape X = [n, k]"
  shows "\<exists>base ns eta. super s X y b ps aux = Inr base \<and> ps = Some ns \<and>
      map_of ns ''eta'' = Some eta \<and>
      ob = Add base
             (Mul (Mul (Const (Fin (2 * real n))) (ParamRef eta))
                (SumSquares (MatMul
                   (ConstArray (case tikhonov_w s of Some (Some W) \<Rightarrow> W | _ \<Rightarrow> np_eye k))
                   (VarRef b))))"
  using assms
  by (auto simp: Tikhonov_generate_objective_def shape_at_def
        split: option.splits sum.splits obj.splits if_splits)

lemma Tikhonov_generate_objective_returns:
  assumes "shape X = [n, k]" and "super s X y b (Some ns) aux = Inr base"
    and "map_of ns ''eta'' = Some eta" and "heap s b = Some (VariableObj k)"
    and "\<forall>W. tikhonov_w s = Some (Some W) \<longrightarrow> matmul_ok (shape W) k"
  shows "Tikhonov_generate_objective super s X y b (Some ns) aux =
      Inr (Add base
             (Mul (Mul (Const (Fin (2 * real n))) (ParamRef eta))
                (SumSquares (MatMul
                   (ConstArray (case tikhonov_w s of Some (Some W) \<Rightarrow> W | _ \<Rightarrow> np_eye k))
                   (VarRef b)))))"
  using assms
  by (auto simp: Tikhonov_generate_objective_def shape_at_def matmul_ok_def np_eye_def
        split: option.splits)

text \<open>
  Claim C5. When the objective hook is the Tikhonov mixin's and \<^verbatim>\<open>generate_problem\<close>
  returns on an \<open>n\<close> by \<open>k\<close> matrix, the objective of the stored Problem Descriptor is
  the objective of the next implementation in the chain plus
  \<open>2 * n * eta * sum_squares(W @ beta)\<close>, where \<open>eta\<close> is the Parameter of that name and
  \<open>W\<close> is \<^verbatim>\<open>tikhonov_w\<close> if the attribute exists and is not \<^verbatim>\<open>None\<close> and the \<open>k\<close>
  by \<open>k\<close> identity otherwise.
\<close>

theorem Tikhonov_objective_assembled:
  assumes mix: "generate_objective env = Tikhonov_generate_objective super"
    and sh: "shape X = [n, k]"
    and gp: "generate_problem env X y s = (Inr u, s')"
  shows "\<exists>c cv base ns eta s3. canonicals s' = Some c \<and> heap s' c = Some (CanonicalsObj cv) \<and>
      parameters cv = Some ns \<and> map_of ns ''eta'' = Some eta \<and> same_settings s s3 \<and>
      super s3 X y (beta cv) (Some ns) (auxiliaries cv) = Inr base \<and>
      objective cv =
        Add base
          (Mul (Mul (Const (Fin (2 * real n))) (ParamRef eta))
             (SumSquares (MatMul
                (ConstArray (case tikhonov_w s of Some (Some W) \<Rightarrow> W | _ \<Rightarrow> np_eye k))
                (VarRef (beta cv))))) \<and>
      problem cv = Problem (objective cv) (constraints cv)"
proof -
  from generate_problem_Inr[OF gp] obtain k' ns s1 aux ob cons where
    g: "generate_params env X y
             (s\<lparr>heap := (heap s)(next_addr s \<mapsto> VariableObj k'), next_addr := Suc (next_addr s),
                trace := trace s @ [NewVariable (next_addr s) k', GenerateParams]\<rparr>) = (Inr ns, s1)"
    and o: "generate_objective env (emit GenerateObjective (emit GenerateAuxiliaries s1)) X y
             (next_addr s) (Some ns) aux = Inr ob"
    and s': "s' = s1\<lparr>canonicals := Some (next_addr s1),
                   heap := (heap s1)(next_addr s1 \<mapsto>
                      CanonicalsObj \<lparr>problem = Problem ob cons, objective = ob, beta = next_addr s,
                         parameters = Some ns, auxiliaries = aux, constraints = cons\<rparr>),
                   next_addr := Suc (next_addr s1),
                   trace := trace s1 @ [GenerateAuxiliaries, GenerateObjective, GenerateConstraints,
                                        NewProblem (next_addr s1) X y]\<rparr>"
    by blast
  let ?s3 = "emit GenerateObjective (emit GenerateAuxiliaries s1)"
  let ?cv = "\<lparr>problem = Problem ob cons, objective = ob, beta = next_addr s,
                         parameters = Some ns, auxiliaries = aux, constraints = cons\<rparr>"
  from generate_params_frame[OF g] have ss: "same_settings s ?s3"
    by (simp add: same_settings_def emit_def)
  then have tw: "tikhonov_w ?s3 = tikhonov_w s" by (simp add: same_settings_def)
  from o mix have "Tikhonov_generate_objective super ?s3 X y (next_addr s) (Some ns) aux = Inr ob"
    by simp
  from Tikhonov_generate_objective_Inr[OF this sh] obtain base eta where
    b: "super ?s3 X y (next_addr s) (Some ns) aux = Inr base" "map_of ns ''eta'' = Some eta"
      "ob = Add base
             (Mul (Mul (Const (Fin (2 * real n))) (ParamRef eta))
                (SumSquares (MatMul
                   (ConstArray (case tikhonov_w s of Some (Some W) \<Rightarrow> W | _ \<Rightarrow> np_eye k))
                   (VarRef (next_addr s)))))"
    unfolding tw by auto
  have c1: "canonicals s' = Some (next_addr s1)" and c2: "heap s' (next_addr s1) = Some (CanonicalsObj ?cv)"
    by (simp_all add: s')
  have "parameters ?cv = Some ns \<and> map_of ns ''eta'' = Some eta \<and> same_settings s ?s3 \<and>
      super ?s3 X y (beta ?cv) (Some ns) (auxiliaries ?cv) = Inr base \<and>
      objective ?cv =
        Add base
          (Mul (Mul (Const (Fin (2 * real n))) (ParamRef eta))
             (SumSquares (MatMul
                (ConstArray (case tikhonov_w s of Some (Some W) \<Rightarrow> W | _ \<Rightarrow> np_eye k))
                (VarRef (beta ?cv))))) \<and>
      problem ?cv = Problem (objective ?cv) (constraints ?cv)"
    using b ss by simp
  with c1 c2 show ?thesis by blast
qed

theorem Tikhonov_objective_assembled_witness:
  "generate_objective plain_env = Tikhonov_generate_objective least_squares \<and>
   shape X_A = [3, 2] \<and>
   fst (generate_problem plain_env X_A y_A ridge) = Inr () \<and>
   (\<exists>c cv eta. canonicals (snd (generate_problem plain_env X_A y_A ridge)) = Some c \<and>
      heap (snd (generate_problem plain_env X_A y_A ridge)) c = Some (CanonicalsObj cv) \<and>
      objective cv =
        Add (SumSquares (Add (MatMul (ConstArray X_A) (VarRef (beta cv)))
                             (Mul (Const (Fin (- 1))) (ConstArray y_A))))
          (Mul (Mul (Const (Fin 6)) (ParamRef eta))
             (SumSquares (MatMul (ConstArray (np_eye 2)) (VarRef (beta cv))))))"
proof -
  have 1: "generate_objective plain_env = Tikhonov_generate_objective least_squares"
    by (simp add: plain_env_def)
  have 2: "shape X_A = [3, 2]" by (simp add: X_A_def)
  have 3: "generate_problem plain_env X_A y_A ridge
      = (Inr (), snd (generate_problem plain_env X_A y_A ridge))"
    using ridge_generate_problem by (metis prod.collapse)
  have 4: "tikhonov_w ridge = None" by (simp add: ridge_def new_estimator_def)
  from Tikhonov_objective_assembled[OF 1 2 3] obtain c cv base ns eta s3 where
    r: "canonicals (snd (generate_problem plain_env X_A y_A ridge)) = Some c"
       "heap (snd (generate_problem plain_env X_A y_A ridge)) c = Some (CanonicalsObj cv)"
       "least_squares s3 X_A y_A (beta cv) (Some ns) (auxiliaries cv) = Inr base"
       "objective cv =
        Add base
          (Mul (Mul (Const (Fin (2 * real 3))) (ParamRef eta))
             (SumSquares (MatMul
                (ConstArray (case tikhonov_w ridge of Some (Some W) \<Rightarrow> W | _ \<Rightarrow> np_eye 2))
                (VarRef (beta cv)))))"
    by blast
  from r(3) have "base = SumSquares (Add (MatMul (ConstArray X_A) (VarRef (beta cv)))
                             (Mul (Const (Fin (- 1))) (ConstArray y_A)))"
    by (simp add: least_squares_def)
  with r(4) 4 have "objective cv =
        Add (SumSquares (Add (MatMul (ConstArray X_A) (VarRef (beta cv)))
                             (Mul (Const (Fin (- 1))) (ConstArray y_A))))
          (Mul (Mul (Const (Fin 6)) (ParamRef eta))
             (SumSquares (MatMul (ConstArray (np_eye 2)) (VarRef (beta cv)))))"
    by simp
  with r(1,2) 1 2 ridge_generate_problem show ?thesis by blast
qed

section \<open>Warm start before any data is cached\<close>

lemma generate_problem_new:
  assumes gp: "generate_problem env X y s = (Inr u, s')"
  shows "\<exists>c evs. canonicals s' = Some c \<and> trace s' = trace s @ evs \<and>
           NewProblem c X y \<in> set evs \<and> same_fitted s s' \<and> same_settings s s'"
proof -
  from generate_problem_Inr[OF gp] obtain k ns s1 aux ob cons where
    g: "generate_params env X y
             (s\<lparr>heap := (heap s)(next_addr s \<mapsto> VariableObj k), next_addr := Suc (next_addr s),
                trace := trace s @ [NewVariable (next_addr s) k, GenerateParams]\<rparr>) = (Inr ns, s1)"
    and s': "s' = s1\<lparr>canonicals := Some (next_addr s1),
                   heap := (heap s1)(next_addr s1 \<mapsto>
                      CanonicalsObj \<lparr>problem = Problem ob cons, objective = ob, beta = next_addr s,
                         parameters = Some ns, auxiliaries = aux, constraints = cons\<rparr>),
                   next_addr := Suc (next_addr s1),
                   trace := trace s1 @ [GenerateAuxiliaries, GenerateObjective, GenerateConstraints,
                                        NewProblem (next_addr s1) X y]\<rparr>"
    by blast
  note fr = generate_params_frame[OF g]
  from fr have t1: "trace s1 = trace s @ [NewVariable (next_addr s) k, GenerateParams]" by simp
  have "canonicals s' = Some (next_addr s1)" by (simp add: s')
  moreover have "trace s' = trace s @ [NewVariable (next_addr s) k, GenerateParams,
      GenerateAuxiliaries, GenerateObjective, GenerateConstraints, NewProblem (next_addr s1) X y]"
    by (simp add: s' t1)
  moreover from fr have "same_fitted s s'" "same_settings s s'"
    by (simp_all add: s' same_fitted_def same_settings_def)
  ultimately show ?thesis by auto
qed

lemma fit_problem_without_cache:
  assumes ws: "warm_start s" and nx: "cached_X s = None" and ny: "cached_y s = None"
    and fp: "fit_problem env X y s = (r, s')"
  shows "(canonicals s \<noteq> None \<longrightarrow> cached_X s' = Some X \<and> cached_y s' = Some y) \<and>
         (canonicals s = None \<longrightarrow>
            (\<forall>e s1. generate_problem env X y s = (Inl e, s1) \<longrightarrow> r = Inl e \<and> s' = s1) \<and>
            (\<forall>s1. generate_problem env X y s = (Inr (), s1) \<longrightarrow>
               canonicals s1 \<noteq> None \<and> cached_X s1 = None \<and> cached_y s1 = None \<and>
               cached_X s' = Some X \<and> cached_y s' = Some y \<and>
               (\<exists>c evs. canonicals s' = Some c \<and> trace s' = trace s @ evs \<and>
                   NewProblem c X y \<in> set evs)))"
proof -
  have second: "\<And>s1. warm_start s1 \<Longrightarrow> cached_X s1 = None \<Longrightarrow> cached_y s1 = None \<Longrightarrow>
      (if \<not> array_equal X X \<or> \<not> array_equal y y
       then generate_problem env X y (s1\<lparr>cached_X := Some X, cached_y := Some y\<rparr>)
       else set_param_values env (s1\<lparr>cached_X := Some X, cached_y := Some y\<rparr>)) = (r, s') \<Longrightarrow>
      cached_X s' = Some X \<and> cached_y s' = Some y \<and>
      (\<forall>c0. canonicals s1 = Some c0 \<longrightarrow>
         (\<exists>evs. trace s' = trace s1 @ evs \<and>
            (canonicals s' = Some c0 \<or> (\<exists>c. canonicals s' = Some c \<and> NewProblem c X y \<in> set evs))))"
  proof -
    fix s1 assume a: "warm_start s1" "cached_X s1 = None" "cached_y s1 = None"
      "(if \<not> array_equal X X \<or> \<not> array_equal y y
       then generate_problem env X y (s1\<lparr>cached_X := Some X, cached_y := Some y\<rparr>)
       else set_param_values env (s1\<lparr>cached_X := Some X, cached_y := Some y\<rparr>)) = (r, s')"
    let ?s2 = "s1\<lparr>cached_X := Some X, cached_y := Some y\<rparr>"
    show "cached_X s' = Some X \<and> cached_y s' = Some y \<and>
      (\<forall>c0. canonicals s1 = Some c0 \<longrightarrow>
         (\<exists>evs. trace s' = trace s1 @ evs \<and>
            (canonicals s' = Some c0 \<or> (\<exists>c. canonicals s' = Some c \<and> NewProblem c X y \<in> set evs))))"
    proof (cases "\<not> array_equal X X \<or> \<not> array_equal y y")
      case True
      with a(4) have g: "generate_problem env X y ?s2 = (r, s')" by simp
      note fr = generate_problem_frame[OF g]
      show ?thesis
      proof (cases r)
        case (Inl e)
        from fr Inl have "same_fitted ?s2 s'" "canonicals s' = canonicals ?s2"
          "\<exists>evs. trace s' = trace ?s2 @ evs" by blast+
        then show ?thesis by (auto simp: same_fitted_def)
      next
        case (Inr u)
        from generate_problem_new[OF g[unfolded Inr]] show ?thesis
          by (auto simp: same_fitted_def)
      qed
    next
      case False
      with a(4) have g: "set_param_values env ?s2 = (r, s')" by simp
      from set_param_values_frame[OF g] show ?thesis by (auto simp: same_fitted_def)
    qed
  qed
  show ?thesis
  proof (cases "canonicals s")
    case (Some c0)
    with fp ws nx ny have "(if \<not> array_equal X X \<or> \<not> array_equal y y
       then generate_problem env X y (s\<lparr>cached_X := Some X, cached_y := Some y\<rparr>)
       else set_param_values env (s\<lparr>cached_X := Some X, cached_y := Some y\<rparr>)) = (r, s')"
      by (simp add: fit_problem_def Let_def)
    from second[OF ws nx ny this] Some show ?thesis by simp
  next
    case None
    obtain r1 s1 where g1: "generate_problem env X y s = (r1, s1)"
      by (cases "generate_problem env X y s")
    show ?thesis
    proof (cases r1)
      case (Inl e)
      with fp None g1 have "r = Inl e" "s' = s1" by (simp_all add: fit_problem_def)
      with None g1 Inl show ?thesis by simp
    next
      case (Inr u)
      from generate_problem_new[OF g1[unfolded Inr]] obtain c1 evs1 where
        n: "canonicals s1 = Some c1" "trace s1 = trace s @ evs1" "NewProblem c1 X y \<in> set evs1"
           "same_fitted s s1" "same_settings s s1" by blast
      from n ws nx ny have s1: "warm_start s1" "cached_X s1 = None" "cached_y s1 = None"
        by (simp_all add: same_fitted_def same_settings_def)
      from fp None g1 Inr s1 have "(if \<not> array_equal X X \<or> \<not> array_equal y y
         then generate_problem env X y (s1\<lparr>cached_X := Some X, cached_y := Some y\<rparr>)
         else set_param_values env (s1\<lparr>cached_X := Some X, cached_y := Some y\<rparr>)) = (r, s')"
        by (simp add: fit_problem_def Let_def)
      from second[OF s1 this] n(1) obtain evs2 where
        r2: "cached_X s' = Some X" "cached_y s' = Some y" "trace s' = trace s1 @ evs2"
          "canonicals s' = Some c1 \<or> (\<exists>c. canonicals s' = Some c \<and> NewProblem c X y \<in> set evs2)"
        by blast
      from r2(3,4) n(2,3) have "\<exists>c evs. canonicals s' = Some c \<and> trace s' = trace s @ evs \<and>
         NewProblem c X y \<in> set evs" by auto
      with None g1 Inr n(1) s1 r2(1,2) show ?thesis by simp
    qed
  qed
qed

lemma warm_A_facts:
  "fst (fit plain_env X_A y_A None (ridge\<lparr>warm_start := True\<rparr>)) = Inr ()"
  "canonicals warm_A = Some 2" "cached_X warm_A = Some X_A" "cached_y warm_A = Some y_A"
  "warm_start warm_A"
  "new_events (ridge\<lparr>warm_start := True\<rparr>) warm_A =
     [NewVariable 0 2, GenerateParams, GenerateAuxiliaries, GenerateObjective,
      GenerateConstraints, NewProblem 2 X_A y_A, SetParamValues, Solve 2 X_A y_A]"
  by (simp_all add: warm_A_def new_events_def model_defs Let_def)

lemma cold_A_facts:
  "canonicals cold_A = Some 2" "cached_X cold_A = None" "cached_y cold_A = None"
  "coef cold_A = Some (VSeq [Fin 1, Fin 1])"
  by (simp_all add: cold_A_def model_defs Let_def)

text \<open>
  Claim C3, as amended. With warm start enabled and no cached training data, a
  \<^verbatim>\<open>fit\<close> that gets past validation caches the preprocessed data whenever a Problem
  Descriptor already exists; and when none exists it first builds one from that data
  (the cache is still empty when the build returns) and then caches the data, or raises
  what the build raises.
\<close>

theorem warm_fit_without_cache:
  assumes ws: "warm_start s" and nx: "cached_X s = None" and ny: "cached_y s = None"
    and prep: "fit_prepare env X y sw s = Inr (X', y', xo, yo, xs)"
  shows "(canonicals s \<noteq> None \<longrightarrow>
            cached_X (snd (fit env X y sw s)) = Some X' \<and>
            cached_y (snd (fit env X y sw s)) = Some y') \<and>
         (canonicals s = None \<longrightarrow>
            (\<forall>e s1. generate_problem env X' y' s = (Inl e, s1) \<longrightarrow>
                fit env X y sw s = (Inl e, s1)) \<and>
            (\<forall>s1. generate_problem env X' y' s = (Inr (), s1) \<longrightarrow>
               canonicals s1 \<noteq> None \<and> cached_X s1 = None \<and> cached_y s1 = None \<and>
               cached_X (snd (fit env X y sw s)) = Some X' \<and>
               cached_y (snd (fit env X y sw s)) = Some y' \<and>
               (\<exists>c. canonicals (snd (fit env X y sw s)) = Some c \<and>
                   NewProblem c X' y' \<in> set (new_events s (snd (fit env X y sw s))))))"
proof -
  obtain r1 s1 where fp: "fit_problem env X' y' s = (r1, s1)" by (cases "fit_problem env X' y' s")
  note L = fit_problem_without_cache[OF ws nx ny fp]
  obtain s' where s': "s' = snd (fit env X y sw s)" by simp
  have rel: "cached_X s' = cached_X s1 \<and> cached_y s' = cached_y s1 \<and>
      canonicals s' = canonicals s1 \<and> (\<exists>evs. trace s' = trace s1 @ evs) \<and>
      (\<forall>e. r1 = Inl e \<longrightarrow> fit env X y sw s = (Inl e, s1))"
  proof (cases r1)
    case (Inl e)
    with prep fp have "fit env X y sw s = (Inl e, s1)" by (simp add: fit_def)
    with s' Inl show ?thesis by simp
  next
    case (Inr u)
    obtain r2 s2 where fs: "fit_solve env X' y' xo yo xs s1 = (r2, s2)"
      by (cases "fit_solve env X' y' xo yo xs s1")
    from prep fp Inr fs have "fit env X y sw s = (r2, s2)" by (simp add: fit_def)
    with s' fit_solve_frame[OF fs] Inr show ?thesis by auto
  qed
  have A: "canonicals s \<noteq> None \<longrightarrow> cached_X s' = Some X' \<and> cached_y s' = Some y'"
    using L rel by simp
  have B: "canonicals s = None \<longrightarrow>
            (\<forall>e s1. generate_problem env X' y' s = (Inl e, s1) \<longrightarrow>
                fit env X y sw s = (Inl e, s1))"
    using L rel by auto
  have C: "canonicals s = None \<longrightarrow>
            (\<forall>s1. generate_problem env X' y' s = (Inr (), s1) \<longrightarrow>
               canonicals s1 \<noteq> None \<and> cached_X s1 = None \<and> cached_y s1 = None \<and>
               cached_X s' = Some X' \<and> cached_y s' = Some y' \<and>
               (\<exists>c. canonicals s' = Some c \<and> NewProblem c X' y' \<in> set (new_events s s')))"
  proof (intro impI allI)
    fix t1 assume n: "canonicals s = None" and g: "generate_problem env X' y' s = (Inr (), t1)"
    from L n g have 1: "canonicals t1 \<noteq> None \<and> cached_X t1 = None \<and> cached_y t1 = None \<and>
               cached_X s1 = Some X' \<and> cached_y s1 = Some y'" by blast
    from L n g obtain c evs where 2: "canonicals s1 = Some c" "trace s1 = trace s @ evs"
      "NewProblem c X' y' \<in> set evs" by blast
    from rel obtain evs2 where 3: "trace s' = trace s1 @ evs2" by blast
    from 2 3 have "NewProblem c X' y' \<in> set (new_events s s')" by (simp add: new_events_def)
    with 1 2 rel show "canonicals t1 \<noteq> None \<and> cached_X t1 = None \<and> cached_y t1 = None \<and>
               cached_X s' = Some X' \<and> cached_y s' = Some y' \<and>
               (\<exists>c. canonicals s' = Some c \<and> NewProblem c X' y' \<in> set (new_events s s'))"
      by simp
  qed
  from A B C show ?thesis unfolding s' by blast
qed

theorem warm_fit_without_cache_witness:
  "warm_start (ridge\<lparr>warm_start := True\<rparr>) \<and> cached_X (ridge\<lparr>warm_start := True\<rparr>) = None \<and>
   cached_y (ridge\<lparr>warm_start := True\<rparr>) = None \<and> canonicals (ridge\<lparr>warm_start := True\<rparr>) = None \<and>
   fst (generate_problem plain_env X_A y_A (ridge\<lparr>warm_start := True\<rparr>)) = Inr () \<and>
   cached_X warm_A = Some X_A \<and> cached_y warm_A = Some y_A \<and>
   (\<exists>c. canonicals warm_A = Some c \<and>
      NewProblem c X_A y_A \<in> set (new_events (ridge\<lparr>warm_start := True\<rparr>) warm_A))"
proof -
  let ?s = "ridge\<lparr>warm_start := True\<rparr>"
  have 1: "warm_start ?s" by simp
  have 2: "cached_X ?s = None" "cached_y ?s = None" "canonicals ?s = None"
    by (simp_all add: ridge_def new_estimator_def)
  have 3: "fit_prepare plain_env X_A y_A None ?s
     = Inr (X_A, y_A, NDArray [] [Fin 0], NDArray [] [Fin 0], NDArray [] [Fin 1])"
    by (simp add: fit_prepare_def plain_env_def validate_params_def)
  have 4: "fst (generate_problem plain_env X_A y_A ?s) = Inr ()"
    by (simp add: model_defs Let_def)
  then have 5: "generate_problem plain_env X_A y_A ?s
      = (Inr (), snd (generate_problem plain_env X_A y_A ?s))"
    by (metis prod.collapse)
  from warm_fit_without_cache[OF 1 2(1,2) 3] 2(3) 5
  have "cached_X (snd (fit plain_env X_A y_A None ?s)) = Some X_A \<and>
        cached_y (snd (fit plain_env X_A y_A None ?s)) = Some y_A \<and>
        (\<exists>c. canonicals (snd (fit plain_env X_A y_A None ?s)) = Some c \<and>
            NewProblem c X_A y_A \<in> set (new_events ?s (snd (fit plain_env X_A y_A None ?s))))"
    by blast
  with 1 2 4 show ?thesis by (simp add: warm_A_def)
qed

text \<open>
  Claim C3 as stated fails where a Problem Descriptor already exists. After a direct
  call of \<^verbatim>\<open>generate_problem\<close> on \<open>X_A\<close>, a warm-start fit on \<open>X_A\<close> builds nothing:
  it caches the data, pushes the parameter values and solves the descriptor that was
  there. The same holds of an estimator fitted on \<open>X_A\<close> without warm start, then
  switched to warm start and fitted on \<open>X_B\<close>.
\<close>

theorem existing_descriptor_counterexample:
  "canonicals built_A = Some 2 \<and> cached_X built_A = None \<and> cached_y built_A = None \<and>
   warm_start built_A \<and>
   fst (fit plain_env X_A y_A None built_A) = Inr () \<and>
   canonicals (snd (fit plain_env X_A y_A None built_A)) = Some 2 \<and>
   cached_X (snd (fit plain_env X_A y_A None built_A)) = Some X_A \<and>
   new_events built_A (snd (fit plain_env X_A y_A None built_A))
     = [SetParamValues, Solve 2 X_A y_A] \<and>
   canonicals cold_A = Some 2 \<and> cached_X cold_A = None \<and> cached_y cold_A = None \<and>
   fst (fit plain_env X_B y_A None (cold_A\<lparr>warm_start := True\<rparr>)) = Inr () \<and>
   canonicals (snd (fit plain_env X_B y_A None (cold_A\<lparr>warm_start := True\<rparr>))) = Some 2 \<and>
   cached_X (snd (fit plain_env X_B y_A None (cold_A\<lparr>warm_start := True\<rparr>))) = Some X_B \<and>
   new_events (cold_A\<lparr>warm_start := True\<rparr>)
      (snd (fit plain_env X_B y_A None (cold_A\<lparr>warm_start := True\<rparr>)))
     = [SetParamValues, Solve 2 X_B y_A]"
  by (simp add: built_A_def cold_A_def new_events_def model_defs Let_def)

section \<open>Warm start on changed data\<close>

text \<open>With a cache present and data that differ from it, fit rebuilds and leaves the cache as it was.\<close>

lemma fit_changed_data_keeps_cache:
  assumes ws: "warm_start s" and c: "canonicals s = Some c"
    and cx: "cached_X s = Some cx" and cy: "cached_y s = Some cy"
    and prep: "fit_prepare env X y sw s = Inr (X', y', xo, yo, xs)"
    and ne: "\<not> array_equal cx X' \<or> \<not> array_equal cy y'"
  shows "fit_problem env X' y' s = generate_problem env X' y' s \<and>
         cached_X (snd (fit env X y sw s)) = Some cx \<and>
         cached_y (snd (fit env X y sw s)) = Some cy"
proof -
  have same: "s\<lparr>cached_X := Some cx, cached_y := Some cy\<rparr> = s" using cx cy by simp
  have fp: "fit_problem env X' y' s = generate_problem env X' y' s"
    using ws c cx cy ne by (auto simp: fit_problem_def Let_def same)
  obtain r1 s1 where g: "generate_problem env X' y' s = (r1, s1)"
    by (cases "generate_problem env X' y' s")
  from generate_problem_frame[OF g] cx cy have k1: "cached_X s1 = Some cx" "cached_y s1 = Some cy"
    by (simp_all add: same_fitted_def)
  have "cached_X (snd (fit env X y sw s)) = Some cx \<and> cached_y (snd (fit env X y sw s)) = Some cy"
  proof (cases r1)
    case (Inl e)
    with prep fp g have "fit env X y sw s = (Inl e, s1)" by (simp add: fit_def)
    with k1 show ?thesis by simp
  next
    case (Inr u)
    obtain r2 s2 where fs: "fit_solve env X' y' xo yo xs s1 = (r2, s2)"
      by (cases "fit_solve env X' y' xo yo xs s1")
    from prep fp g Inr fs have "fit env X y sw s = (r2, s2)" by (simp add: fit_def)
    with fit_solve_frame[OF fs] k1 show ?thesis by simp
  qed
  with fp show ?thesis by simp
qed

text \<open>
  Claim C2 at a concrete history. After a warm-start fit on \<open>X_A\<close>, a fit on \<open>X_B\<close>
  rebuilds the Problem Descriptor, but the cache still holds \<open>X_A\<close>, not \<open>X_B\<close>. A third
  fit, on \<open>X_A\<close> again, then finds the data equal to the cache, builds nothing and solves
  the descriptor that was built from \<open>X_B\<close>.
\<close>

theorem stale_cache_after_data_change:
  "canonicals warm_A = Some 2 \<and> cached_X warm_A = Some X_A \<and> \<not> array_equal X_A X_B \<and>
   fst (fit plain_env X_B y_A None warm_A) = Inr () \<and>
   canonicals warm_AB = Some 5 \<and> NewProblem 5 X_B y_A \<in> set (trace warm_AB) \<and>
   cached_X warm_AB = Some X_A \<and> cached_X warm_AB \<noteq> Some X_B \<and>
   fst (fit plain_env X_A y_A None warm_AB) = Inr () \<and>
   canonicals (snd (fit plain_env X_A y_A None warm_AB)) = Some 5 \<and>
   new_events warm_AB (snd (fit plain_env X_A y_A None warm_AB))
     = [SetParamValues, Solve 5 X_A y_A]"
  by (simp add: warm_AB_def warm_A_def new_events_def model_defs Let_def)

section \<open>Warm start on unchanged data\<close>

text \<open>The handles of a descriptor built by the Problem Assembler are pairwise distinct.\<close>

lemma update_distinct_snd:
  "distinct (map snd al) \<Longrightarrow> a \<notin> snd ` set al \<Longrightarrow>
     distinct (map snd (AList.update k a al)) \<and>
     snd ` set (AList.update k a al) \<subseteq> insert a (snd ` set al)"
  by (induction al) (auto simp: image_iff)

lemma constraints_loop_handles:
  "constraints_loop env name cs vk ps s = (Inr ps', s') \<Longrightarrow> distinct (map snd ps) \<Longrightarrow>
   (\<forall>a \<in> snd ` set ps. a < next_addr s) \<Longrightarrow>
     distinct (map snd ps') \<and> (\<forall>a \<in> snd ` set ps'. a < next_addr s')"
proof (induction cs arbitrary: vk ps s)
  case Nil
  then show ?case by simp
next
  case (Cons c cs)
  obtain v k where vk: "constraint_kwargs c vk = (v, k)" by (cases "constraint_kwargs c vk")
  from Cons.prems(1) vk have ok: "cp_Parameter_init env v k = None"
    by (cases "cp_Parameter_init env v k") auto
  let ?s1 = "s\<lparr>heap := (heap s)(next_addr s \<mapsto> ParameterObj v k), next_addr := Suc (next_addr s)\<rparr>"
  let ?ps1 = "AList.update name (next_addr s) ps"
  from ok Cons.prems(1) vk
  have run: "constraints_loop env name cs (v, k) ?ps1 ?s1 = (Inr ps', s')"
    by (simp add: alloc_def)
  from Cons.prems(3) have fresh: "next_addr s \<notin> snd ` set ps" by auto
  from update_distinct_snd[OF Cons.prems(2) fresh, of name]
  have d: "distinct (map snd ?ps1)" and sub: "snd ` set ?ps1 \<subseteq> insert (next_addr s) (snd ` set ps)"
    by blast+
  have b: "\<forall>a \<in> snd ` set ?ps1. a < next_addr ?s1"
  proof
    fix a assume "a \<in> snd ` set ?ps1"
    with sub have "a = next_addr s \<or> a \<in> snd ` set ps" by blast
    with Cons.prems(3) have "a \<le> next_addr s" by (auto simp: less_imp_le)
    then show "a < next_addr ?s1" by simp
  qed
  from Cons.IH[OF run d b] show ?case .
qed

lemma params_loop_handles:
  "params_loop env cc ps ns s = (Inr ns', s') \<Longrightarrow> distinct (map snd ns) \<Longrightarrow>
   (\<forall>a \<in> snd ` set ns. a < next_addr s) \<Longrightarrow>
     distinct (map snd ns') \<and> (\<forall>a \<in> snd ` set ns'. a < next_addr s')"
proof (induction ps arbitrary: ns s)
  case Nil
  then show ?case by simp
next
  case (Cons p rest)
  obtain name v where p: "p = (name, v)" by (cases p)
  show ?case
  proof (cases "map_of cc name")
    case None
    with Cons.prems(1) p have "params_loop env cc rest ns s = (Inr ns', s')" by simp
    from Cons.IH[OF this Cons.prems(2,3)] show ?thesis .
  next
    case (Some cs)
    from Cons.prems(1) p Some obtain ns1 s1 where
      c1: "constraints_loop env name cs (v, no_kwargs) ns s = (Inr ns1, s1)"
      and run: "params_loop env cc rest ns1 s1 = (Inr ns', s')"
      by (auto split: prod.splits sum.splits)
    from constraints_loop_handles[OF c1 Cons.prems(2,3)]
    have "distinct (map snd ns1)" "\<forall>a \<in> snd ` set ns1. a < next_addr s1" by blast+
    from Cons.IH[OF run this] show ?thesis .
  qed
qed

lemma generate_problem_distinct_handles:
  assumes "generate_problem env X y s = (Inr u, s')"
  shows "distinct_handles s'"
proof -
  from generate_problem_Inr[OF assms] obtain k ns s1 aux ob cons where
    g: "generate_params env X y
             (s\<lparr>heap := (heap s)(next_addr s \<mapsto> VariableObj k), next_addr := Suc (next_addr s),
                trace := trace s @ [NewVariable (next_addr s) k, GenerateParams]\<rparr>) = (Inr ns, s1)"
    and s': "s' = s1\<lparr>canonicals := Some (next_addr s1),
                   heap := (heap s1)(next_addr s1 \<mapsto>
                      CanonicalsObj \<lparr>problem = Problem ob cons, objective = ob, beta = next_addr s,
                         parameters = Some ns, auxiliaries = aux, constraints = cons\<rparr>),
                   next_addr := Suc (next_addr s1),
                   trace := trace s1 @ [GenerateAuxiliaries, GenerateObjective, GenerateConstraints,
                                        NewProblem (next_addr s1) X y]\<rparr>"
    by blast
  from g have "distinct (map snd ns)"
    unfolding generate_params_def by (auto dest: params_loop_handles)
  then show ?thesis by (simp add: distinct_handles_def s')
qed

lemma lookup_parameter_trace [simp]:
  "lookup_parameter (s\<lparr>trace := t\<rparr>) n = lookup_parameter s n"
  by (simp add: lookup_parameter_def cong: option.case_cong)

lemma set_param_values_written:
  assumes sp: "set_param_values env s = (Inr u, s')"
    and cc: "cvx_parameter_constraints s = Some cc"
    and dn: "distinct (map fst (get_params s))"
    and dh: "distinct_handles s"
    and mem: "(name, v) \<in> set (get_params s)" and cs: "map_of cc name = Some cs"
  shows "\<exists>a old k v'. lookup_parameter s name = Inr a \<and> heap s a = Some (ParameterObj old k) \<and>
      coerce_value env v old = Inr v' \<and> heap s' a = Some (ParameterObj v' k)"
proof -
  let ?s0 = "emit SetParamValues s"
  have "distinct_handles ?s0" using dh by (simp add: distinct_handles_def emit_def cong: option.case_cong)
  moreover have "cvx_parameter_constraints ?s0 = Some cc" using cc by (simp add: emit_def)
  moreover from sp have "set_param_values_loop env (get_params s) ?s0 = (Inr u, s')"
    by (simp add: set_param_values_def)
  ultimately have "\<exists>a old k v'. lookup_parameter ?s0 name = Inr a \<and>
      heap ?s0 a = Some (ParameterObj old k) \<and>
      coerce_value env v old = Inr v' \<and> heap s' a = Some (ParameterObj v' k)"
    using set_param_values_loop_written[of env "get_params s" ?s0 u s' cc name v cs] dn mem cs
    by blast
  then show ?thesis by (simp add: emit_def)
qed

lemma warm_A_eta_facts:
  "warm_start (warm_A\<lparr>hyperparams := [(''eta'', VFloat (Fin 3))]\<rparr>)"
  "canonicals (warm_A\<lparr>hyperparams := [(''eta'', VFloat (Fin 3))]\<rparr>) = Some 2"
  "\<exists>cv. heap (warm_A\<lparr>hyperparams := [(''eta'', VFloat (Fin 3))]\<rparr>) 2 = Some (CanonicalsObj cv)"
  "cached_X (warm_A\<lparr>hyperparams := [(''eta'', VFloat (Fin 3))]\<rparr>) = Some X_A"
  "cached_y (warm_A\<lparr>hyperparams := [(''eta'', VFloat (Fin 3))]\<rparr>) = Some y_A"
  "cvx_parameter_constraints (warm_A\<lparr>hyperparams := [(''eta'', VFloat (Fin 3))]\<rparr>)
     = Some [(''eta'', [Interval RealT (Some 0) None ClosedLeft])]"
  "lookup_parameter (warm_A\<lparr>hyperparams := [(''eta'', VFloat (Fin 3))]\<rparr>) ''eta'' = Inr 1"
  "heap (warm_A\<lparr>hyperparams := [(''eta'', VFloat (Fin 3))]\<rparr>) 1
     = Some (ParameterObj (VFloat (Fin 1)) (no_kwargs\<lparr>kw_nonneg := True\<rparr>))"
  "distinct_handles (warm_A\<lparr>hyperparams := [(''eta'', VFloat (Fin 3))]\<rparr>)"
  "fst (set_param_values plain_env (warm_A\<lparr>hyperparams := [(''eta'', VFloat (Fin 3))]\<rparr>)) = Inr ()"
  "get_params (warm_A\<lparr>hyperparams := [(''eta'', VFloat (Fin 3))]\<rparr>) =
     [(''copy_X'', VBool True), (''fit_intercept'', VBool False), (''solver'', VNone),
      (''solver_options'', VNone), (''warm_start'', VBool True), (''eta'', VFloat (Fin 3))]"
  by (simp_all add: warm_A_def distinct_handles_def model_defs Let_def)

text \<open>
  Claim C1. With warm start enabled, a Problem Descriptor and a cache present, and
  preprocessed data that \<^verbatim>\<open>np.array_equal\<close> finds equal to the cache, \<^verbatim>\<open>fit\<close> does
  not rebuild: \<^verbatim>\<open>canonicals_\<close> is the same object with the same content, no problem is
  built, and \<^verbatim>\<open>fit\<close> is \<^verbatim>\<open>_set_param_values\<close> followed by the solve. When
  \<^verbatim>\<open>_set_param_values\<close> returns (names and handles being distinct), the handle of
  every solver-parameterized hyperparameter holds the hyperparameter's current value, as
  \<^verbatim>\<open>_set_param_values\<close> coerces it (a sequence of length one is broadcast to the
  shape of the old value, another sequence becomes an array).
\<close>

theorem warm_fit_unchanged_data:
  assumes ws: "warm_start s" and c: "canonicals s = Some c"
    and hc: "heap s c = Some (CanonicalsObj cv)"
    and cx: "cached_X s = Some cx" and cy: "cached_y s = Some cy"
    and prep: "fit_prepare env X y sw s = Inr (X', y', xo, yo, xs)"
    and ex: "array_equal cx X'" and ey: "array_equal cy y'"
  shows "canonicals (snd (fit env X y sw s)) = Some c \<and>
         heap (snd (fit env X y sw s)) c = Some (CanonicalsObj cv) \<and>
         (\<forall>ev \<in> set (new_events s (snd (fit env X y sw s))). \<not> is_NewProblem ev) \<and>
         fit env X y sw s =
           (case set_param_values env s of
              (Inl e, s1) \<Rightarrow> (Inl e, s1)
            | (Inr u, s1) \<Rightarrow> fit_solve env X' y' xo yo xs s1) \<and>
         (fst (set_param_values env s) = Inr () \<and> distinct (map fst (get_params s)) \<and>
          distinct_handles s \<longrightarrow>
            (\<forall>cc name v cs.
               cvx_parameter_constraints s = Some cc \<and> (name, v) \<in> set (get_params s) \<and>
               map_of cc name = Some cs \<longrightarrow>
               (\<exists>a old k v'. lookup_parameter s name = Inr a \<and>
                  heap s a = Some (ParameterObj old k) \<and> coerce_value env v old = Inr v' \<and>
                  heap (snd (fit env X y sw s)) a = Some (ParameterObj v' k))))"
proof -
  have same: "s\<lparr>cached_X := Some cx, cached_y := Some cy\<rparr> = s" using cx cy by simp
  have fp: "fit_problem env X' y' s = set_param_values env s"
    using ws c cx cy ex ey by (simp add: fit_problem_def Let_def same)
  obtain r1 s1 where sp: "set_param_values env s = (r1, s1)" by (cases "set_param_values env s")
  note fr = set_param_values_frame[OF sp]
  have eq: "fit env X y sw s =
           (case set_param_values env s of
              (Inl e, s1) \<Rightarrow> (Inl e, s1)
            | (Inr u, s1) \<Rightarrow> fit_solve env X' y' xo yo xs s1)"
    by (simp add: fit_def prep fp)
  from fr hc have h1: "heap s1 c = Some (CanonicalsObj cv)" by (metis obj.distinct(3) option.inject)
  from fr c have c1: "canonicals s1 = Some c" by simp
  from fr have t1: "trace s1 = trace s @ [SetParamValues]" by simp
  obtain s' where s': "s' = snd (fit env X y sw s)" by simp
  have rel: "canonicals s' = Some c \<and> heap s' = heap s1 \<and>
      (\<exists>evs. trace s' = trace s1 @ evs \<and> (\<forall>ev \<in> set evs. \<not> is_NewProblem ev))"
  proof (cases r1)
    case (Inl e)
    with eq sp s' have "s' = s1" by simp
    with c1 show ?thesis by simp
  next
    case (Inr u)
    obtain r2 s2 where fs: "fit_solve env X' y' xo yo xs s1 = (r2, s2)"
      by (cases "fit_solve env X' y' xo yo xs s1")
    with eq sp Inr s' have "s' = s2" by simp
    moreover from fs have "\<exists>evs. trace s2 = trace s1 @ evs \<and> (\<forall>ev \<in> set evs. \<not> is_NewProblem ev)"
      by (auto simp: fit_solve_def solve_def emit_def Let_def
            split: pyval.splits option.splits obj.splits sum.splits prod.splits)
    ultimately show ?thesis using fit_solve_frame[OF fs] c1 by simp
  qed
  then obtain evs where t2: "trace s' = trace s1 @ evs" "\<forall>ev \<in> set evs. \<not> is_NewProblem ev"
    by blast
  from t1 t2 have ne: "\<forall>ev \<in> set (new_events s s'). \<not> is_NewProblem ev"
    by (auto simp: new_events_def)
  have wr: "fst (set_param_values env s) = Inr () \<and> distinct (map fst (get_params s)) \<and>
          distinct_handles s \<longrightarrow>
            (\<forall>cc name v cs.
               cvx_parameter_constraints s = Some cc \<and> (name, v) \<in> set (get_params s) \<and>
               map_of cc name = Some cs \<longrightarrow>
               (\<exists>a old k v'. lookup_parameter s name = Inr a \<and>
                  heap s a = Some (ParameterObj old k) \<and> coerce_value env v old = Inr v' \<and>
                  heap s' a = Some (ParameterObj v' k)))"
  proof (intro impI allI)
    fix cc name v cs
    assume a: "fst (set_param_values env s) = Inr () \<and> distinct (map fst (get_params s)) \<and>
          distinct_handles s"
      and b: "cvx_parameter_constraints s = Some cc \<and> (name, v) \<in> set (get_params s) \<and>
               map_of cc name = Some cs"
    from a sp have sp': "set_param_values env s = (Inr (), s1)" by simp
    from set_param_values_written[OF sp', of cc name v cs] a b rel
    show "\<exists>a old k v'. lookup_parameter s name = Inr a \<and>
                  heap s a = Some (ParameterObj old k) \<and> coerce_value env v old = Inr v' \<and>
                  heap s' a = Some (ParameterObj v' k)" by simp
  qed
  from rel h1 ne eq wr show ?thesis unfolding s' by simp
qed

theorem warm_fit_unchanged_data_witness:
  "warm_start (warm_A\<lparr>hyperparams := [(''eta'', VFloat (Fin 3))]\<rparr>) \<and>
   canonicals (warm_A\<lparr>hyperparams := [(''eta'', VFloat (Fin 3))]\<rparr>) = Some 2 \<and>
   cached_X (warm_A\<lparr>hyperparams := [(''eta'', VFloat (Fin 3))]\<rparr>) = Some X_A \<and>
   cached_y (warm_A\<lparr>hyperparams := [(''eta'', VFloat (Fin 3))]\<rparr>) = Some y_A \<and>
   array_equal X_A X_A \<and> array_equal y_A y_A \<and>
   canonicals (snd (fit plain_env X_A y_A None (warm_A\<lparr>hyperparams := [(''eta'', VFloat (Fin 3))]\<rparr>)))
     = Some 2 \<and>
   heap (snd (fit plain_env X_A y_A None (warm_A\<lparr>hyperparams := [(''eta'', VFloat (Fin 3))]\<rparr>))) 1
     = Some (ParameterObj (VFloat (Fin 3)) (no_kwargs\<lparr>kw_nonneg := True\<rparr>))"
proof -
  let ?s = "warm_A\<lparr>hyperparams := [(''eta'', VFloat (Fin 3))]\<rparr>"
  let ?s' = "snd (fit plain_env X_A y_A None ?s)"
  note f = warm_A_eta_facts
  from f(3) obtain cv where hc: "heap ?s 2 = Some (CanonicalsObj cv)" by blast
  have prep: "fit_prepare plain_env X_A y_A None ?s
     = Inr (X_A, y_A, NDArray [] [Fin 0], NDArray [] [Fin 0], NDArray [] [Fin 1])"
    by (simp add: fit_prepare_def plain_env_def validate_params_def)
  have ax: "array_equal X_A X_A" by (simp add: array_equal_def X_A_def)
  have ay: "array_equal y_A y_A" by (simp add: array_equal_def y_A_def)
  note T = warm_fit_unchanged_data[OF f(1) f(2) hc f(4) f(5) prep ax ay]
  from T have c: "canonicals ?s' = Some 2" by blast
  have dn: "distinct (map fst (get_params ?s))" by (simp add: f(11))
  have mem: "(''eta'', VFloat (Fin 3)) \<in> set (get_params ?s)" by (simp add: f(11))
  have mo: "map_of [(''eta'', [Interval RealT (Some 0) None ClosedLeft])] ''eta''
      = Some [Interval RealT (Some 0) None ClosedLeft]" by simp
  from T f(10) dn f(9) f(6) mem mo
  have "\<exists>a old k v'. lookup_parameter ?s ''eta'' = Inr a \<and>
      heap ?s a = Some (ParameterObj old k) \<and> coerce_value plain_env (VFloat (Fin 3)) old = Inr v' \<and>
      heap ?s' a = Some (ParameterObj v' k)" by blast
  then obtain a old k v' where r: "lookup_parameter ?s ''eta'' = Inr a"
      "heap ?s a = Some (ParameterObj old k)" "coerce_value plain_env (VFloat (Fin 3)) old = Inr v'"
      "heap ?s' a = Some (ParameterObj v' k)" by blast
  from r(1) f(7) have a: "a = 1" by simp
  from r(2) f(8) a have k: "k = no_kwargs\<lparr>kw_nonneg := True\<rparr>" by simp
  from r(3) have v': "v' = VFloat (Fin 3)" by (simp add: coerce_value_def)
  from r(4) a k v' have "heap ?s' 1 = Some (ParameterObj (VFloat (Fin 3)) (no_kwargs\<lparr>kw_nonneg := True\<rparr>))"
    by simp
  with c f(1,2,4,5) ax ay show ?thesis by simp
qed

section \<open>The store stays well formed\<close>

text \<open>
  The two conditions on the store that the theorems above assume hold of a new estimator
  and are kept by every \<^verbatim>\<open>fit\<close>, whether it returns or raises.
\<close>

lemma constraints_loop_above:
  "constraints_loop env name cs vk ps s = (r, s') \<Longrightarrow>
   (\<forall>a. next_addr s \<le> a \<longrightarrow> heap s a = None) \<Longrightarrow>
   (\<forall>a. next_addr s' \<le> a \<longrightarrow> heap s' a = None)"
proof (induction cs arbitrary: vk ps s)
  case Nil
  then show ?case by simp
next
  case (Cons c cs)
  obtain v k where vk: "constraint_kwargs c vk = (v, k)" by (cases "constraint_kwargs c vk")
  show ?case
  proof (cases "cp_Parameter_init env v k")
    case (Some e)
    with Cons.prems vk show ?thesis by simp
  next
    case None
    let ?s1 = "s\<lparr>heap := (heap s)(next_addr s \<mapsto> ParameterObj v k), next_addr := Suc (next_addr s)\<rparr>"
    from Cons.prems(1) vk None
    have run: "constraints_loop env name cs (v, k) (AList.update name (next_addr s) ps) ?s1 = (r, s')"
      by (simp add: alloc_def)
    from Cons.prems(2) have "\<forall>a. next_addr ?s1 \<le> a \<longrightarrow> heap ?s1 a = None" by simp
    from Cons.IH[OF run this] show ?thesis .
  qed
qed

lemma params_loop_above:
  "params_loop env cc ps ns s = (r, s') \<Longrightarrow>
   (\<forall>a. next_addr s \<le> a \<longrightarrow> heap s a = None) \<Longrightarrow>
   (\<forall>a. next_addr s' \<le> a \<longrightarrow> heap s' a = None)"
proof (induction ps arbitrary: ns s)
  case Nil
  then show ?case by simp
next
  case (Cons p rest)
  obtain name v where p: "p = (name, v)" by (cases p)
  show ?case
  proof (cases "map_of cc name")
    case None
    with Cons.prems(1) p have "params_loop env cc rest ns s = (r, s')" by simp
    from Cons.IH[OF this Cons.prems(2)] show ?thesis .
  next
    case (Some cs)
    obtain r1 s1 where c1: "constraints_loop env name cs (v, no_kwargs) ns s = (r1, s1)"
      by (cases "constraints_loop env name cs (v, no_kwargs) ns s")
    note a1 = constraints_loop_above[OF c1 Cons.prems(2)]
    show ?thesis
    proof (cases r1)
      case (Inl e)
      with Cons.prems(1) p Some c1 have "s' = s1" by simp
      with a1 show ?thesis by simp
    next
      case (Inr ns')
      with Cons.prems(1) p Some c1 have run: "params_loop env cc rest ns' s1 = (r, s')" by simp
      from Cons.IH[OF run a1] show ?thesis .
    qed
  qed
qed

lemma generate_problem_heap_ok:
  assumes gp: "generate_problem env X y s = (r, s')" and ok: "heap_ok s"
  shows "heap_ok s'"
proof (cases "shape_at X 1")
  case (Inl e)
  with gp have "s' = s" by (simp add: generate_problem_def)
  with ok show ?thesis by simp
next
  case (Inr k)
  show ?thesis
  proof (cases "cp_Variable_init env k")
    case (Some e)
    with gp Inr have "s' = s" by (simp add: generate_problem_def)
    with ok show ?thesis by simp
  next
    case None
    define s0 where "s0 = s\<lparr>heap := (heap s)(next_addr s \<mapsto> VariableObj k),
       next_addr := Suc (next_addr s),
       trace := trace s @ [NewVariable (next_addr s) k, GenerateParams]\<rparr>"
    obtain r1 s1 where g1: "generate_params env X y s0 = (r1, s1)"
      by (cases "generate_params env X y s0")
    from ok have "\<forall>a. next_addr s0 \<le> a \<longrightarrow> heap s0 a = None"
      by (simp add: heap_ok_def s0_def)
    from params_loop_above[OF g1[unfolded generate_params_def] this]
    have a1: "\<forall>a. next_addr s1 \<le> a \<longrightarrow> heap s1 a = None" .
    from generate_params_frame[OF g1] ok
    have c1: "\<forall>c. canonicals s1 = Some c \<longrightarrow> c < next_addr s1"
      by (auto simp: heap_ok_def s0_def)
    from a1 c1 have h1: "heap_ok s1" by (simp add: heap_ok_def)
    from gp Inr None g1 have
      "(heap s' = heap s1 \<and> next_addr s' = next_addr s1 \<and> canonicals s' = canonicals s1) \<or>
       (\<exists>ob. heap s' = (heap s1)(next_addr s1 \<mapsto> ob) \<and> next_addr s' = Suc (next_addr s1) \<and>
          canonicals s' = Some (next_addr s1))"
      by (auto simp: generate_problem_def alloc_def emit_def Let_def s0_def
            split: sum.splits prod.splits option.splits)
    with h1 show ?thesis by (auto simp: heap_ok_def)
  qed
qed

lemma set_param_values_heap_ok:
  assumes sp: "set_param_values env s = (r, s')" and ok: "heap_ok s"
  shows "heap_ok s'"
proof -
  note fr = set_param_values_frame[OF sp]
  have "\<forall>a. next_addr s' \<le> a \<longrightarrow> heap s' a = None"
  proof (intro allI impI)
    fix a assume "next_addr s' \<le> a"
    with fr ok have n: "heap s a = None" by (simp add: heap_ok_def)
    from fr have "heap s' a = heap s a \<or>
        (\<exists>old k v. heap s a = Some (ParameterObj old k) \<and> heap s' a = Some (ParameterObj v k))"
      by blast
    with n show "heap s' a = None" by simp
  qed
  with fr ok show ?thesis by (simp add: heap_ok_def)
qed

lemma set_param_values_distinct_handles:
  assumes sp: "set_param_values env s = (r, s')" and dh: "distinct_handles s"
  shows "distinct_handles s'"
proof (cases "canonicals s")
  case None
  with set_param_values_frame[OF sp] show ?thesis by (simp add: distinct_handles_def)
next
  case (Some c)
  note fr = set_param_values_frame[OF sp]
  from fr Some have c': "canonicals s' = Some c" by simp
  from fr have d: "heap s' c = heap s c \<or>
        (\<exists>old k v. heap s c = Some (ParameterObj old k) \<and> heap s' c = Some (ParameterObj v k))"
    by blast
  then show ?thesis
  proof
    assume "heap s' c = heap s c"
    with dh Some c' show ?thesis by (simp add: distinct_handles_def)
  next
    assume "\<exists>old k v. heap s c = Some (ParameterObj old k) \<and> heap s' c = Some (ParameterObj v k)"
    with c' show ?thesis by (auto simp: distinct_handles_def)
  qed
qed

lemma generate_problem_keeps_distinct_handles:
  assumes gp: "generate_problem env X y s = (r, s')" and ok: "heap_ok s"
    and dh: "distinct_handles s"
  shows "distinct_handles s'"
proof (cases r)
  case (Inr u)
  with gp generate_problem_distinct_handles show ?thesis by (cases u) blast
next
  case (Inl e)
  note fr = generate_problem_frame[OF gp]
  from fr Inl have c: "canonicals s' = canonicals s" by blast
  show ?thesis
  proof (cases "canonicals s")
    case None
    with c show ?thesis by (simp add: distinct_handles_def)
  next
    case (Some c0)
    with ok have "c0 < next_addr s" by (simp add: heap_ok_def)
    with fr have "heap s' c0 = heap s c0" by blast
    with dh Some c show ?thesis by (simp add: distinct_handles_def)
  qed
qed

lemma fit_problem_invariant:
  assumes fp: "fit_problem env X y s = (r, s')" and ok: "heap_ok s" and dh: "distinct_handles s"
  shows "heap_ok s' \<and> distinct_handles s'"
proof -
  obtain r1 s1 where g1: "(if canonicals s = None \<or> \<not> warm_start s
        then generate_problem env X y s else (Inr (), s)) = (r1, s1)"
    by (cases "if canonicals s = None \<or> \<not> warm_start s
        then generate_problem env X y s else (Inr (), s)")
  have i1: "heap_ok s1 \<and> distinct_handles s1"
  proof (cases "canonicals s = None \<or> \<not> warm_start s")
    case True
    with g1 have "generate_problem env X y s = (r1, s1)" by simp
    from generate_problem_heap_ok[OF this ok] generate_problem_keeps_distinct_handles[OF this ok dh]
    show ?thesis by simp
  next
    case False
    with g1 ok dh show ?thesis by simp
  qed
  show ?thesis
  proof (cases r1)
    case (Inl e)
    with fp g1 have "s' = s1" by (simp add: fit_problem_def)
    with i1 show ?thesis by simp
  next
    case (Inr u)
    show ?thesis
    proof (cases "warm_start s1")
      case False
      with fp g1 Inr have "s' = s1" by (simp add: fit_problem_def)
      with i1 show ?thesis by simp
    next
      case True
      define s2 where "s2 = s1\<lparr>cached_X := Some (case cached_X s1 of None \<Rightarrow> X | Some c \<Rightarrow> c),
          cached_y := Some (case cached_y s1 of None \<Rightarrow> y | Some c \<Rightarrow> c)\<rparr>"
      from i1 have i2: "heap_ok s2" "distinct_handles s2"
        by (simp_all add: s2_def heap_ok_def distinct_handles_def cong: option.case_cong)
      from fp g1 Inr True
      have "generate_problem env X y s2 = (r, s') \<or> set_param_values env s2 = (r, s')"
        by (auto simp: fit_problem_def Let_def s2_def split: if_splits)
      then show ?thesis
      proof
        assume g: "generate_problem env X y s2 = (r, s')"
        from generate_problem_heap_ok[OF g i2(1)]
          generate_problem_keeps_distinct_handles[OF g i2]
        show ?thesis by simp
      next
        assume g: "set_param_values env s2 = (r, s')"
        from set_param_values_heap_ok[OF g i2(1)] set_param_values_distinct_handles[OF g i2(2)]
        show ?thesis by simp
      qed
    qed
  qed
qed

lemma fit_invariant:
  assumes ok: "heap_ok s" and dh: "distinct_handles s"
  shows "heap_ok (snd (fit env X y sw s)) \<and> distinct_handles (snd (fit env X y sw s))"
proof (cases "fit_prepare env X y sw s")
  case (Inl e)
  then have "fit env X y sw s = (Inl e, s)" by (simp add: fit_def)
  with ok dh show ?thesis by simp
next
  case (Inr t)
  then obtain X' y' xo yo xs where prep: "fit_prepare env X y sw s = Inr (X', y', xo, yo, xs)"
    by (cases t) auto
  obtain r1 s1 where fp: "fit_problem env X' y' s = (r1, s1)" by (cases "fit_problem env X' y' s")
  note i1 = fit_problem_invariant[OF fp ok dh]
  show ?thesis
  proof (cases r1)
    case (Inl e)
    with prep fp have "fit env X y sw s = (Inl e, s1)" by (simp add: fit_def)
    with i1 show ?thesis by simp
  next
    case (Inr u)
    obtain r2 s2 where fs: "fit_solve env X' y' xo yo xs s1 = (r2, s2)"
      by (cases "fit_solve env X' y' xo yo xs s1")
    from prep fp Inr fs have ft: "fit env X y sw s = (r2, s2)" by (simp add: fit_def)
    from fit_solve_frame[OF fs] have "canonicals s2 = canonicals s1" "heap s2 = heap s1"
      "next_addr s2 = next_addr s1" by blast+
    with i1 have "heap_ok s2 \<and> distinct_handles s2"
      by (simp add: heap_ok_def distinct_handles_def cong: option.case_cong)
    with ft show ?thesis by simp
  qed
qed

lemma new_estimator_invariant: "heap_ok new_estimator \<and> distinct_handles new_estimator"
  by (simp add: heap_ok_def distinct_handles_def new_estimator_def)

end
